theory Spec2Isabelle
  imports Complex_Main
begin


chapter \<open>DupliCheck: the detection core\<close>

text \<open>
  A model of the detection engine of the plugin: \<^verbatim>\<open>src/core/attribute_checker.py\<close>,
  \<^verbatim>\<open>src/core/geometry_checker.py\<close>, \<^verbatim>\<open>src/core/priority_resolver.py\<close> and
  \<^verbatim>\<open>src/core/detector.py\<close>. A method of the source is a function of the same name; an
  attribute \<^verbatim>\<open>self.x\<close> of the detector is the field \<open>self_x\<close>, of the geometry checker the
  field \<open>gc_x\<close>, of the attribute checker the field \<open>ac_x\<close>. A raised exception is a
  result \<open>Inl\<close>. What the library and the interpreter decide is read from a record, the
  environment. The definitions come first; the properties follow them.
\<close>

section \<open>The data the core reads\<close>

text \<open>
  Python floats are modelled as real numbers: no rounding, no NaN and no infinities.
  A formatted string with one float in it (an f-string such as
  \<^verbatim>\<open>f'Within {self.tolerance} tolerance'\<close>) is kept as its text before the number, the
  number and the text after it, since the digits printed are not part of the model.
\<close>

datatype reason = Text string | Fmt string real string

type_synonym point = "real \<times> real"

record QgsRectangle =
  xMinimum :: real
  yMinimum :: real
  xMaximum :: real
  yMaximum :: real

text \<open>
  A \<^verbatim>\<open>QgsGeometry\<close> is the library's object. It is modelled by what the core observes of
  it: whether it is null, and for a geometry that is not null
  \<^item> \<open>wkb_md5\<close>: \<^verbatim>\<open>hashlib.md5(self._normalize_geometry(g).asWkb()).hexdigest()\<close>, the digest
    of the geometry normalised with the precision of the checker (32 hexadecimal digits);
  \<^item> \<open>centroid\<close>: the point of \<^verbatim>\<open>g.centroid()\<close>, or \<open>None\<close> when that geometry is null;
  \<^item> \<open>boundingBox\<close>, \<open>area\<close>, \<open>isMultipart\<close> and \<open>asGeometryCollection\<close>: the results of
    the methods of these names.
\<close>

datatype QgsGeometry =
    NullGeometry
  | Geometry (wkb_md5: string) (centroid: "point option") (boundingBox: QgsRectangle)
      (area: real) (isMultipart: bool) (asGeometryCollection: "QgsGeometry list")

fun isNull :: "QgsGeometry \<Rightarrow> bool" where
  "isNull NullGeometry = True"
| "isNull (Geometry h c b a m ps) = False"

text \<open>
  A field value is dynamically typed in the source: \<^verbatim>\<open>None\<close> or a null \<^verbatim>\<open>QVariant\<close>
  (\<open>VNull\<close>), a \<^verbatim>\<open>str\<close>, an \<^verbatim>\<open>int\<close> or \<^verbatim>\<open>float\<close> (Python compares the two by numeric
  value, so one constructor holds both), or any other object, kept by its \<^verbatim>\<open>str()\<close> form.
\<close>

datatype attr_value = VNull | VStr string | VNum real | VOther string

record QgsFeature =
  fid :: int
  geometry :: QgsGeometry
  attributes :: "(string \<times> attr_value) list"

text \<open>\<^verbatim>\<open>feature[field_name]\<close>: \<open>None\<close> stands for the \<^verbatim>\<open>KeyError\<close> of a missing field.\<close>

definition feature_get :: "QgsFeature \<Rightarrow> string \<Rightarrow> attr_value option" where
  "feature_get feature field_name = map_of (attributes feature) field_name"

record QgsVectorLayer =
  isValid :: bool
  getFeatures :: "QgsFeature list"
  layer_fields :: "string list"
  geometryType :: int

text \<open>
  The rules dictionary, read with the defaults of \<^verbatim>\<open>PriorityResolver.__init__\<close>:
  \<^verbatim>\<open>rules.get('field')\<close>, \<^verbatim>\<open>rules.get('field_order', 0)\<close>, \<^verbatim>\<open>rules.get('completeness', False)\<close>,
  \<^verbatim>\<open>rules.get('area')\<close> and \<^verbatim>\<open>rules.get('fid_fallback', True)\<close>.
\<close>

record priority_rules =
  rule_field :: "string option"
  rule_field_order :: int
  rule_completeness :: bool
  rule_area :: "string option"
  rule_fid_fallback :: bool

text \<open>
  What the interpreter and the library decide and the source does not:
  \<^item> \<open>hausdorffDistance\<close>: the result of \<^verbatim>\<open>geom1.hausdorffDistance(geom2)\<close>, \<open>None\<close> when the
    call raises;
  \<^item> \<open>spatial_intersects\<close>: the ids \<^verbatim>\<open>QgsSpatialIndex.intersects\<close> returns for a rectangle,
    given the features the index was built from;
  \<^item> \<open>set_order\<close>: the order in which a \<^verbatim>\<open>set\<close> of ids is iterated;
  \<^item> \<open>random_sample\<close>: the list \<^verbatim>\<open>random.sample(population, k)\<close> returns;
  \<^item> \<open>field_rule\<close>: the result of \<^verbatim>\<open>PriorityResolver._apply_field_rule\<close>, which orders
    dynamically typed values and parses dates with \<^verbatim>\<open>datetime.strptime\<close>, given the rules,
    the dictionary of features and the candidates.
\<close>

record environment =
  hausdorffDistance :: "QgsGeometry \<Rightarrow> QgsGeometry \<Rightarrow> real option"
  spatial_intersects :: "QgsFeature list \<Rightarrow> QgsRectangle \<Rightarrow> int list"
  set_order :: "int set \<Rightarrow> int list"
  random_sample :: "int list \<Rightarrow> nat \<Rightarrow> int list"
  field_rule :: "priority_rules \<Rightarrow> (int \<times> QgsFeature) list \<Rightarrow> int list \<Rightarrow> int option"

section \<open>GeometryChecker\<close>

record GeometryChecker =
  gc_tolerance :: real
  gc_compare_method :: int
  gc_decompose_multipart :: bool

definition hash_geometry :: "QgsGeometry \<Rightarrow> string" where
  "hash_geometry g = (if isNull g then ''NULL'' else wkb_md5 g)"

type_synonym comparison = "bool \<times> real \<times> reason"

definition compare_wkb :: "QgsGeometry \<Rightarrow> QgsGeometry \<Rightarrow> comparison" where
  "compare_wkb geom1 geom2 =
     (let hash1 = hash_geometry geom1; hash2 = hash_geometry geom2
      in if hash1 = hash2 then (True, 1, Text ''Exact WKB match'')
         else (False, 0, Text ''WKB mismatch''))"

text \<open>\<^verbatim>\<open>c1.distance(c2)\<close> of two point geometries: the Euclidean distance.\<close>

fun point_distance :: "point \<Rightarrow> point \<Rightarrow> real" where
  "point_distance (x1, y1) (x2, y2) = sqrt ((x1 - x2)\<^sup>2 + (y1 - y2)\<^sup>2)"

definition compare_centroid :: "QgsGeometry \<Rightarrow> QgsGeometry \<Rightarrow> real \<Rightarrow> comparison" where
  "compare_centroid geom1 geom2 tol =
     (case (centroid geom1, centroid geom2) of
        (Some c1, Some c2) \<Rightarrow>
          (let distance = point_distance c1 c2
           in if distance \<le> tol
              then (let score = (if tol > 0 then 1 - distance / tol else 1)
                    in (True, max (1 / 2) score, Fmt ''Centroid distance: '' distance ''''))
              else (False, 0, Fmt ''Centroid distance '' distance '' exceeds tolerance''))
      | _ \<Rightarrow> (False, 0, Text ''Could not compute centroid''))"

definition compare_hausdorff ::
  "environment \<Rightarrow> QgsGeometry \<Rightarrow> QgsGeometry \<Rightarrow> real \<Rightarrow> comparison" where
  "compare_hausdorff env geom1 geom2 tol =
     (case hausdorffDistance env geom1 geom2 of
        None \<Rightarrow> compare_centroid geom1 geom2 tol
      | Some distance \<Rightarrow>
          if distance \<le> tol
          then (let score = (if tol > 0 then 1 - distance / tol else 1)
                in (True, max (1 / 2) score, Fmt ''Hausdorff distance: '' distance ''''))
          else (False, 0, Fmt ''Hausdorff distance '' distance '' exceeds tolerance''))"

text \<open>The methods of \<^verbatim>\<open>QgsRectangle\<close> that \<^verbatim>\<open>_compare_bbox\<close> and the tolerance scan call.\<close>

definition rect_isEmpty :: "QgsRectangle \<Rightarrow> bool" where
  "rect_isEmpty r = (xMaximum r \<le> xMinimum r \<or> yMaximum r \<le> yMinimum r)"

definition rect_grow :: "QgsRectangle \<Rightarrow> real \<Rightarrow> QgsRectangle" where
  "rect_grow r delta =
     \<lparr>xMinimum = xMinimum r - delta, yMinimum = yMinimum r - delta,
      xMaximum = xMaximum r + delta, yMaximum = yMaximum r + delta\<rparr>"

definition rect_intersects :: "QgsRectangle \<Rightarrow> QgsRectangle \<Rightarrow> bool" where
  "rect_intersects a b =
     (max (xMinimum a) (xMinimum b) \<le> min (xMaximum a) (xMaximum b) \<and>
      max (yMinimum a) (yMinimum b) \<le> min (yMaximum a) (yMaximum b))"

definition rect_intersect :: "QgsRectangle \<Rightarrow> QgsRectangle \<Rightarrow> QgsRectangle" where
  "rect_intersect a b =
     \<lparr>xMinimum = max (xMinimum a) (xMinimum b), yMinimum = max (yMinimum a) (yMinimum b),
      xMaximum = min (xMaximum a) (xMaximum b), yMaximum = min (yMaximum a) (yMaximum b)\<rparr>"

definition rect_area :: "QgsRectangle \<Rightarrow> real" where
  "rect_area r = (xMaximum r - xMinimum r) * (yMaximum r - yMinimum r)"

definition compare_bbox :: "QgsGeometry \<Rightarrow> QgsGeometry \<Rightarrow> real \<Rightarrow> comparison" where
  "compare_bbox geom1 geom2 tol =
     (if rect_isEmpty (boundingBox geom1) \<or> rect_isEmpty (boundingBox geom2)
      then (False, 0, Text ''Empty bounding box'')
      else
        (let bbox1 = rect_grow (boundingBox geom1) tol;
             bbox2 = rect_grow (boundingBox geom2) tol
         in if rect_intersects bbox1 bbox2
            then (let intersection = rect_intersect bbox1 bbox2;
                      union_area = rect_area bbox1 + rect_area bbox2 - rect_area intersection
                  in if union_area > 0 \<and> rect_area intersection / union_area > 9 / 10
                     then (True, rect_area intersection / union_area,
                           Fmt ''BBox overlap: '' (rect_area intersection / union_area) '''')
                     else (False, 0, Text ''Insufficient bounding box overlap''))
            else (False, 0, Text ''Insufficient bounding box overlap'')))"

definition compare_single ::
  "environment \<Rightarrow> GeometryChecker \<Rightarrow> QgsGeometry \<Rightarrow> QgsGeometry \<Rightarrow> real \<Rightarrow> comparison" where
  "compare_single env chk geom1 geom2 tol =
     (if gc_compare_method chk = 0 then compare_wkb geom1 geom2
      else if gc_compare_method chk = 1 then compare_centroid geom1 geom2 tol
      else if gc_compare_method chk = 2 then compare_hausdorff env geom1 geom2 tol
      else if gc_compare_method chk = 3 then compare_bbox geom1 geom2 tol
      else compare_wkb geom1 geom2)"

definition get_parts :: "QgsGeometry \<Rightarrow> QgsGeometry list" where
  "get_parts g =
     (if isNull g then []
      else if isMultipart g then asGeometryCollection g
      else [g])"

text \<open>
  \<^verbatim>\<open>GeometryChecker.compare\<close>. The tolerance argument is optional; with decomposition the
  first matching pair of parts, the parts of \<open>geom1\<close> in the outer loop, decides.
\<close>

definition compare ::
  "environment \<Rightarrow> GeometryChecker \<Rightarrow> QgsGeometry \<Rightarrow> QgsGeometry \<Rightarrow> real option \<Rightarrow> comparison"
  where
  "compare env chk geom1 geom2 tolerance =
     (let tol = (case tolerance of None \<Rightarrow> gc_tolerance chk | Some t \<Rightarrow> t)
      in if isNull geom1 \<or> isNull geom2
         then (False, 0, Text ''One or both geometries are NULL'')
         else if gc_decompose_multipart chk
         then (case find (\<lambda>(match, score, reason). match)
                      (concat (map (\<lambda>p1. map (\<lambda>p2. compare_single env chk p1 p2 tol)
                                              (get_parts geom2))
                                   (get_parts geom1))) of
                 Some result \<Rightarrow> result
               | None \<Rightarrow> (False, 0, Text ''No matching parts found''))
         else compare_single env chk geom1 geom2 tol)"
section \<open>AttributeChecker: Levenshtein distance\<close>

text \<open>
  \<^verbatim>\<open>_levenshtein_distance\<close> of \<^verbatim>\<open>src/core/attribute_checker.py\<close>. A Python string is a
  list of characters. The inner loop runs over \<^verbatim>\<open>enumerate(s2)\<close> and appends to
  \<^verbatim>\<open>current_row\<close>; the outer loop runs over \<^verbatim>\<open>enumerate(s1)\<close> and replaces
  \<^verbatim>\<open>previous_row\<close>. Both keep the index the source reads the rows with.
\<close>

fun lev_inner :: "'a \<Rightarrow> 'a list \<Rightarrow> nat \<Rightarrow> nat list \<Rightarrow> nat list \<Rightarrow> nat list" where
  "lev_inner c1 [] j previous_row current_row = current_row"
| "lev_inner c1 (c2 # rest) j previous_row current_row =
     (let insertions = previous_row ! (j + 1) + 1;
          deletions = current_row ! j + 1;
          substitutions = previous_row ! j + (if c1 \<noteq> c2 then 1 else 0)
      in lev_inner c1 rest (j + 1) previous_row
           (current_row @ [min insertions (min deletions substitutions)]))"

fun lev_outer :: "'a list \<Rightarrow> nat \<Rightarrow> 'a list \<Rightarrow> nat list \<Rightarrow> nat list" where
  "lev_outer [] i s2 previous_row = previous_row"
| "lev_outer (c1 # rest) i s2 previous_row =
     lev_outer rest (i + 1) s2 (lev_inner c1 s2 0 previous_row [i + 1])"

function levenshtein_distance :: "'a list \<Rightarrow> 'a list \<Rightarrow> nat" where
  "levenshtein_distance s1 s2 =
     (if length s1 < length s2 then levenshtein_distance s2 s1
      else if length s2 = 0 then length s1
      else last (lev_outer s1 0 s2 [0 ..< length s2 + 1]))"
  by pat_completeness auto
termination
  by (relation "measure (\<lambda>(s1, s2). if length s1 < length s2 then 1 else 0)") auto

declare levenshtein_distance.simps [simp del]

definition levenshtein_similarity :: "'a list \<Rightarrow> 'a list \<Rightarrow> real" where
  "levenshtein_similarity s1 s2 =
     (if s1 = s2 then 1
      else if length s1 = 0 \<or> length s2 = 0 then 0
      else 1 - real (levenshtein_distance s1 s2) / real (max (length s1) (length s2)))"

text \<open>
  The classic dynamic-programming table of the unit-cost edit distance, as the
  specification words it: entry \<open>(i, j)\<close> is the distance between the first \<open>i\<close>
  characters of \<open>s\<close> and the first \<open>j\<close> characters of \<open>t\<close>; an insertion, a deletion and
  a substitution cost 1 each.
\<close>

fun edit_table :: "'a list \<Rightarrow> 'a list \<Rightarrow> nat \<Rightarrow> nat \<Rightarrow> nat" where
  "edit_table s t 0 j = j"
| "edit_table s t (Suc i) 0 = Suc i"
| "edit_table s t (Suc i) (Suc j) =
     min (edit_table s t i (Suc j) + 1)
       (min (edit_table s t (Suc i) j + 1)
            (edit_table s t i j + (if s ! i \<noteq> t ! j then 1 else 0)))"


text \<open>
  The distance as the textbooks define it, by recursion on the two strings, and the edit
  scripts behind it: \<open>edits s t n\<close> holds when \<open>s\<close> is turned into \<open>t\<close> by deletions,
  insertions and substitutions, \<open>n\<close> of them in all, a character that is kept being free.
\<close>

fun edit_distance :: "'a list \<Rightarrow> 'a list \<Rightarrow> nat" where
  "edit_distance [] t = length t"
| "edit_distance (x # s) [] = Suc (length s)"
| "edit_distance (x # s) (y # t) =
     min (edit_distance s (y # t) + 1)
       (min (edit_distance (x # s) t + 1)
            (edit_distance s t + (if x \<noteq> y then 1 else 0)))"

inductive edits :: "'a list \<Rightarrow> 'a list \<Rightarrow> nat \<Rightarrow> bool" where
  nil: "edits [] [] 0"
| delete: "edits s t n \<Longrightarrow> edits (x # s) t (Suc n)"
| insert: "edits s t n \<Longrightarrow> edits s (y # t) (Suc n)"
| keep: "edits s t n \<Longrightarrow> edits (x # s) (x # t) n"
| substitute: "edits s t n \<Longrightarrow> edits (x # s) (y # t) (Suc n)"

section \<open>AttributeChecker: comparison keys\<close>

record AttributeChecker =
  ac_fields :: "string list"
  ac_normalize :: bool
  ac_ignore_null :: bool
  ac_case_sensitive :: bool
  ac_fuzzy_threshold :: real

text \<open>
  The strings of the model are ASCII. On them \<^verbatim>\<open>unicodedata.normalize('NFKC', s)\<close> is the
  identity, \<^verbatim>\<open>str.lower\<close> maps \<open>A\<close>..\<open>Z\<close> to \<open>a\<close>..\<open>z\<close>, and the white space of
  \<^verbatim>\<open>str.strip\<close> and \<^verbatim>\<open>str.split\<close> is the characters 9 to 13, 28 to 32. A string with a
  character outside ASCII is outside the model: the source's normalisation and lower
  casing may make two such strings equal where the functions below keep them apart.
\<close>

definition is_space :: "char \<Rightarrow> bool" where
  "is_space c = (let n = (of_char c :: nat) in (9 \<le> n \<and> n \<le> 13) \<or> (28 \<le> n \<and> n \<le> 32))"

definition str_strip :: "string \<Rightarrow> string" where
  "str_strip s = rev (dropWhile is_space (rev (dropWhile is_space s)))"

definition lower_char :: "char \<Rightarrow> char" where
  "lower_char c =
     (let n = (of_char c :: nat) in if 65 \<le> n \<and> n \<le> 90 then char_of (n + 32) else c)"

definition str_lower :: "string \<Rightarrow> string" where
  "str_lower s = map lower_char s"

fun split_spaces :: "string \<Rightarrow> string list" where
  "split_spaces [] = [[]]"
| "split_spaces (c # cs) =
     (if is_space c then [] # split_spaces cs
      else (case split_spaces cs of
              [] \<Rightarrow> [[c]]
            | w # ws \<Rightarrow> (c # w) # ws))"

definition str_split :: "string \<Rightarrow> string list" where
  "str_split s = filter (\<lambda>w. w \<noteq> []) (split_spaces s)"

fun str_join :: "string \<Rightarrow> string list \<Rightarrow> string" where
  "str_join sep [] = []"
| "str_join sep [w] = w"
| "str_join sep (w # ws) = w @ sep @ str_join sep ws"

definition normalize_text :: "AttributeChecker \<Rightarrow> string \<Rightarrow> string" where
  "normalize_text chk s =
     (let s1 = str_strip s;
          s2 = (if \<not> ac_case_sensitive chk then str_lower s1 else s1)
      in str_join '' '' (str_split s2))"

fun normalize_value :: "AttributeChecker \<Rightarrow> attr_value \<Rightarrow> attr_value" where
  "normalize_value chk VNull = VNull"
| "normalize_value chk (VStr s) = VStr (normalize_text chk s)"
| "normalize_value chk (VNum x) = VNum x"
| "normalize_value chk (VOther s) = VStr (normalize_text chk s)"

text \<open>
  \<^verbatim>\<open>get_key\<close>: the loop over \<^verbatim>\<open>self.fields\<close> with the list \<^verbatim>\<open>values\<close> it appends to. The
  result \<open>None\<close> is the source's \<^verbatim>\<open>return None\<close>; a tuple is a list.
\<close>

fun get_key_loop ::
  "AttributeChecker \<Rightarrow> QgsFeature \<Rightarrow> string list \<Rightarrow> attr_value list \<Rightarrow> attr_value list option"
  where
  "get_key_loop chk feature [] values = Some values"
| "get_key_loop chk feature (field_name # rest) values =
     (let v = (case feature_get feature field_name of None \<Rightarrow> VNull | Some v \<Rightarrow> v)
      in if v = VNull \<and> ac_ignore_null chk then None
         else get_key_loop chk feature rest
                (values @ [if ac_normalize chk \<and> v \<noteq> VNull then normalize_value chk v else v]))"

definition get_key :: "AttributeChecker \<Rightarrow> QgsFeature \<Rightarrow> attr_value list option" where
  "get_key chk feature = get_key_loop chk feature (ac_fields chk) []"

fun value_similarity :: "attr_value \<Rightarrow> attr_value \<Rightarrow> real" where
  "value_similarity (VStr s1) (VStr s2) = levenshtein_similarity s1 s2"
| "value_similarity v1 v2 = (if v1 = v2 then 1 else 0)"

definition calculate_similarity :: "attr_value list \<Rightarrow> attr_value list \<Rightarrow> real" where
  "calculate_similarity key1 key2 =
     (if length key1 \<noteq> length key2 then 0
      else (let similarities = map (\<lambda>(v1, v2). value_similarity v1 v2) (zip key1 key2)
            in if similarities = [] then 0
               else sum_list similarities / real (length similarities)))"

text \<open>
  \<^verbatim>\<open>AttributeChecker.compare\<close>. The similarity is a real number where the source has a
  float: a threshold within the rounding error of the similarity may decide the fuzzy
  branch of the source differently from the one below.
\<close>

definition attribute_compare ::
  "AttributeChecker \<Rightarrow> QgsFeature \<Rightarrow> QgsFeature \<Rightarrow> comparison" where
  "attribute_compare chk feature1 feature2 =
     (case (get_key chk feature1, get_key chk feature2) of
        (Some key1, Some key2) \<Rightarrow>
          if key1 = key2
          then (True, 1, Text (''Exact match on fields: '' @ str_join '', '' (ac_fields chk)))
          else if ac_fuzzy_threshold chk > 0 \<and>
                  calculate_similarity key1 key2 \<ge> ac_fuzzy_threshold chk
          then (True, calculate_similarity key1 key2,
                Fmt ''Fuzzy match ('' (calculate_similarity key1 key2) '' similarity)'')
          else (False, 0, Text ''No match'')
      | _ \<Rightarrow> (False, 0, Text ''One or both features have NULL key values''))"

section \<open>DuplicateGroup\<close>

record DuplicateGroup =
  feature_ids :: "int set"
  detection_type :: string
  confidence_score :: real
  match_reason :: reason
  suggested_keep :: "int option"
  metadata :: "(string \<times> attr_value list) list"

definition merge_with :: "DuplicateGroup \<Rightarrow> DuplicateGroup \<Rightarrow> DuplicateGroup" where
  "merge_with self other =
     self\<lparr>feature_ids := feature_ids self \<union> feature_ids other,
          confidence_score := min (confidence_score self) (confidence_score other)\<rparr>"

section \<open>PriorityResolver\<close>

text \<open>A dictionary keeps a key at the place of its first insertion and its last value.\<close>

fun dict_set :: "'k \<Rightarrow> 'v \<Rightarrow> ('k \<times> 'v) list \<Rightarrow> ('k \<times> 'v) list" where
  "dict_set k v [] = [(k, v)]"
| "dict_set k v ((k', v') # rest) =
     (if k = k' then (k', v) # rest else (k', v') # dict_set k v rest)"

text \<open>The truth value of a string that may be \<^verbatim>\<open>None\<close>, and of a feature id that may be.\<close>

definition truthy_str :: "string option \<Rightarrow> bool" where
  "truthy_str s = (case s of None \<Rightarrow> False | Some t \<Rightarrow> t \<noteq> [])"

definition truthy_id :: "int option \<Rightarrow> bool" where
  "truthy_id r = (case r of None \<Rightarrow> False | Some i \<Rightarrow> i \<noteq> 0)"

definition count_nulls :: "QgsFeature \<Rightarrow> nat" where
  "count_nulls feature = length (filter (\<lambda>(name, v). v = VNull) (attributes feature))"

definition apply_completeness_rule :: "(int \<times> QgsFeature) list \<Rightarrow> int list \<Rightarrow> int option" where
  "apply_completeness_rule features candidates =
     (let null_counts =
            fold (\<lambda>fid' acc. case map_of features fid' of
                                None \<Rightarrow> acc
                              | Some feature \<Rightarrow> dict_set fid' (count_nulls feature) acc)
                 candidates []
      in if null_counts = [] then None
         else (let min_nulls = min_list (map snd null_counts);
                   best_candidates = map fst (filter (\<lambda>(fid', n). n = min_nulls) null_counts)
               in (case best_candidates of [b] \<Rightarrow> Some b | _ \<Rightarrow> None)))"

text \<open>\<^verbatim>\<open>max(d.keys(), key=...)\<close> and \<^verbatim>\<open>min\<close> return the first key that is extremal.\<close>

fun first_best :: "(real \<Rightarrow> real \<Rightarrow> bool) \<Rightarrow> (int \<times> real) list \<Rightarrow> int \<times> real \<Rightarrow> int" where
  "first_best better [] best = fst best"
| "first_best better (kv # rest) best =
     first_best better rest (if better (snd kv) (snd best) then kv else best)"

definition apply_area_rule ::
  "priority_rules \<Rightarrow> (int \<times> QgsFeature) list \<Rightarrow> int list \<Rightarrow> int option" where
  "apply_area_rule rules features candidates =
     (if \<not> truthy_str (rule_area rules) then None
      else (let areas =
                  fold (\<lambda>fid' acc. case map_of features fid' of
                                      None \<Rightarrow> acc
                                    | Some feature \<Rightarrow>
                                        if isNull (geometry feature) then acc
                                        else dict_set fid' (area (geometry feature)) acc)
                       candidates []
            in (case areas of
                  [] \<Rightarrow> None
                | a # rest \<Rightarrow>
                    if rule_area rules = Some ''largest'' then Some (first_best (>) rest a)
                    else if rule_area rules = Some ''smallest'' then Some (first_best (<) rest a)
                    else None)))"

text \<open>
  \<^verbatim>\<open>_resolve_group\<close>. The features are read from the layer, filtered by the ids of the
  group, into a dictionary; a rule's result decides only when it is truthy, so a rule
  that answers the feature id 0 is passed over like one that answers \<^verbatim>\<open>None\<close>.
\<close>

definition resolve_group ::
  "environment \<Rightarrow> QgsVectorLayer \<Rightarrow> priority_rules \<Rightarrow> DuplicateGroup \<Rightarrow> int option" where
  "resolve_group env layer rules grp =
     (if card (feature_ids grp) < 2
      then (case set_order env (feature_ids grp) of [] \<Rightarrow> None | x # rest \<Rightarrow> Some x)
      else
        (let features =
               fold (\<lambda>f acc. dict_set (fid f) f acc)
                    (filter (\<lambda>f. fid f \<in> feature_ids grp) (getFeatures layer)) [];
             candidates = map fst features;
             result1 = (if (case rule_field rules of
                              None \<Rightarrow> False
                            | Some field_name \<Rightarrow>
                                field_name \<noteq> [] \<and> field_name \<in> set (layer_fields layer))
                        then field_rule env rules features candidates else None);
             result2 = (if rule_completeness rules
                        then apply_completeness_rule features candidates else None);
             result3 = (if truthy_str (rule_area rules) \<and> geometryType layer = 2
                        then apply_area_rule rules features candidates else None)
         in if features = [] then None
            else if truthy_id result1 then result1
            else if truthy_id result2 then result2
            else if truthy_id result3 then result3
            else if rule_fid_fallback rules then Some (min_list candidates)
            else None))"

definition resolve ::
  "environment \<Rightarrow> QgsVectorLayer \<Rightarrow> priority_rules \<Rightarrow> DuplicateGroup list \<Rightarrow> DuplicateGroup list"
  where
  "resolve env layer rules groups =
     map (\<lambda>grp. grp\<lparr>suggested_keep := resolve_group env layer rules grp\<rparr>) groups"

section \<open>DuplicateDetector\<close>

datatype error = ValueError string

record DuplicateDetector =
  self_layer :: "QgsVectorLayer option"
  self_detection_type :: string
  self_tolerance :: real
  self_compare_method :: int
  self_decompose_multipart :: bool
  self_fields :: "string list"
  self_normalize_attributes :: bool
  self_ignore_null :: bool
  self_priority_rules :: "priority_rules option"
  self_sample_mode :: bool
  self_sample_size :: int

text \<open>
  A \<^verbatim>\<open>defaultdict(list)\<close>: the keys in the order of their first insertion, each with the
  list appended to.
\<close>

fun bucket_append :: "'k \<Rightarrow> int \<Rightarrow> ('k \<times> int list) list \<Rightarrow> ('k \<times> int list) list" where
  "bucket_append k v [] = [(k, [v])]"
| "bucket_append k v ((k', vs) # rest) =
     (if k = k' then (k', vs @ [v]) # rest else (k', vs) # bucket_append k v rest)"

subsection \<open>Exact geometry duplicates\<close>

definition hash_group :: "int list \<Rightarrow> DuplicateGroup" where
  "hash_group fids =
     \<lparr>feature_ids = set fids, detection_type = ''geometry'', confidence_score = 1,
      match_reason = Text ''Exact WKB match'', suggested_keep = None, metadata = []\<rparr>"

definition hash_buckets :: "QgsFeature list \<Rightarrow> (string \<times> int list) list" where
  "hash_buckets features =
     fold (\<lambda>feature hash_groups.
             if isNull (geometry feature) then hash_groups
             else bucket_append (hash_geometry (geometry feature)) (fid feature) hash_groups)
          features []"

definition detect_by_hash :: "QgsFeature list \<Rightarrow> DuplicateGroup list" where
  "detect_by_hash features =
     map (\<lambda>(geom_hash, fids). hash_group fids)
         (filter (\<lambda>(geom_hash, fids). length fids > 1) (hash_buckets features))"

subsection \<open>Geometry duplicates within a tolerance\<close>

text \<open>
  \<^verbatim>\<open>_build_spatial_index\<close> fills the index and the cache \<^verbatim>\<open>self._feature_cache\<close>. The index
  is kept as the features it was built from, which \<open>spatial_intersects\<close> is asked with.
\<close>

definition build_feature_cache :: "QgsFeature list \<Rightarrow> (int \<rightharpoonup> QgsFeature)" where
  "build_feature_cache features = fold (\<lambda>feature cache. cache(fid feature \<mapsto> feature)) features Map.empty"

text \<open>
  The state of the scan: the set \<^verbatim>\<open>processed\<close>, the list \<^verbatim>\<open>groups\<close> and the local variable
  \<^verbatim>\<open>score\<close>, which is unbound (\<open>None\<close>) until the first comparison and then keeps the score
  of the latest comparison, over all the features scanned so far.
\<close>

record scan_state =
  processed :: "int set"
  groups :: "DuplicateGroup list"
  score :: "real option"

text \<open>
  The loop over \<^verbatim>\<open>candidate_ids\<close>, on the list \<^verbatim>\<open>duplicates\<close> and the variable \<^verbatim>\<open>score\<close>.
  The set \<^verbatim>\<open>processed\<close> does not change in it. A feature object is truthy, so
  \<^verbatim>\<open>if not candidate\<close> holds only for an id that the cache does not have.
\<close>

fun check_candidates ::
  "environment \<Rightarrow> GeometryChecker \<Rightarrow> real \<Rightarrow> (int \<rightharpoonup> QgsFeature) \<Rightarrow> int set \<Rightarrow> int \<Rightarrow>
   QgsGeometry \<Rightarrow> int list \<Rightarrow> int list \<times> real option \<Rightarrow> int list \<times> real option" where
  "check_candidates env chk tol feature_cache done fid' geom [] acc = acc"
| "check_candidates env chk tol feature_cache done fid' geom (cid # rest) (duplicates, sc) =
     (if cid = fid' \<or> cid \<in> done
      then check_candidates env chk tol feature_cache done fid' geom rest (duplicates, sc)
      else (case feature_cache cid of
              None \<Rightarrow> check_candidates env chk tol feature_cache done fid' geom rest (duplicates, sc)
            | Some candidate \<Rightarrow>
                if isNull (geometry candidate)
                then check_candidates env chk tol feature_cache done fid' geom rest (duplicates, sc)
                else (case compare env chk geom (geometry candidate) (Some tol) of
                        (match, s, reason) \<Rightarrow>
                          check_candidates env chk tol feature_cache done fid' geom rest
                            (if match then duplicates @ [cid] else duplicates, Some s))))"

definition tolerance_group :: "real \<Rightarrow> int list \<Rightarrow> real option \<Rightarrow> DuplicateGroup" where
  "tolerance_group tol duplicates sc =
     \<lparr>feature_ids = set duplicates, detection_type = ''geometry'',
      confidence_score = (case sc of Some s \<Rightarrow> s | None \<Rightarrow> 9 / 10),
      match_reason = Fmt ''Within '' tol '' tolerance'', suggested_keep = None, metadata = []\<rparr>"

definition scan_feature ::
  "environment \<Rightarrow> GeometryChecker \<Rightarrow> real \<Rightarrow> QgsFeature list \<Rightarrow> (int \<rightharpoonup> QgsFeature) \<Rightarrow>
   QgsFeature \<Rightarrow> scan_state \<Rightarrow> scan_state" where
  "scan_feature env chk tol indexed feature_cache feature st =
     (if fid feature \<in> processed st then st
      else if isNull (geometry feature) then st
      else
        (let search_rect = rect_grow (boundingBox (geometry feature)) tol;
             candidate_ids = spatial_intersects env indexed search_rect
         in (case check_candidates env chk tol feature_cache (processed st) (fid feature)
                    (geometry feature) candidate_ids ([fid feature], score st) of
               (duplicates, sc) \<Rightarrow>
                 if length duplicates > 1
                 then \<lparr>processed = processed st \<union> set duplicates,
                       groups = groups st @ [tolerance_group tol duplicates sc],
                       score = sc\<rparr>
                 else \<lparr>processed = insert (fid feature) (processed st),
                       groups = groups st, score = sc\<rparr>)))"

definition scan_features ::
  "environment \<Rightarrow> GeometryChecker \<Rightarrow> real \<Rightarrow> QgsFeature list \<Rightarrow> (int \<rightharpoonup> QgsFeature) \<Rightarrow>
   QgsFeature list \<Rightarrow> scan_state \<Rightarrow> scan_state" where
  "scan_features env chk tol indexed feature_cache features st =
     fold (scan_feature env chk tol indexed feature_cache) features st"

definition detect_by_tolerance ::
  "environment \<Rightarrow> GeometryChecker \<Rightarrow> real \<Rightarrow> QgsFeature list \<Rightarrow> (int \<rightharpoonup> QgsFeature) \<Rightarrow>
   QgsFeature list \<Rightarrow> DuplicateGroup list" where
  "detect_by_tolerance env chk tol indexed feature_cache features =
     groups (scan_features env chk tol indexed feature_cache features
               \<lparr>processed = {}, groups = [], score = None\<rparr>)"

definition detect_geometry_duplicates ::
  "environment \<Rightarrow> DuplicateDetector \<Rightarrow> QgsFeature list \<Rightarrow> DuplicateGroup list" where
  "detect_geometry_duplicates env self features =
     (let checker = \<lparr>gc_tolerance = self_tolerance self,
                     gc_compare_method = self_compare_method self,
                     gc_decompose_multipart = self_decompose_multipart self\<rparr>
      in if self_tolerance self = 0 then detect_by_hash features
         else detect_by_tolerance env checker (self_tolerance self) features
                (build_feature_cache features) features)"

subsection \<open>Attribute duplicates\<close>

definition attribute_group :: "string list \<Rightarrow> attr_value list \<Rightarrow> int list \<Rightarrow> DuplicateGroup" where
  "attribute_group field_names key fids =
     \<lparr>feature_ids = set fids, detection_type = ''attribute'', confidence_score = 1,
      match_reason = Text (''Matching fields: '' @ str_join '', '' field_names),
      suggested_keep = None, metadata = [(''key'', key)]\<rparr>"

definition key_buckets :: "AttributeChecker \<Rightarrow> QgsFeature list \<Rightarrow> (attr_value list \<times> int list) list"
  where
  "key_buckets checker features =
     fold (\<lambda>feature key_groups.
             case get_key checker feature of
               None \<Rightarrow> key_groups
             | Some key \<Rightarrow> bucket_append key (fid feature) key_groups)
          features []"

definition detect_attribute_duplicates ::
  "DuplicateDetector \<Rightarrow> QgsFeature list \<Rightarrow> error + DuplicateGroup list" where
  "detect_attribute_duplicates self features =
     (if self_fields self = []
      then Inl (ValueError ''No fields specified for attribute detection'')
      else
        (let checker = \<lparr>ac_fields = self_fields self,
                        ac_normalize = self_normalize_attributes self,
                        ac_ignore_null = self_ignore_null self,
                        ac_case_sensitive = False, ac_fuzzy_threshold = 0\<rparr>
         in Inr (map (\<lambda>(key, fids). attribute_group (self_fields self) key fids)
                     (filter (\<lambda>(key, fids). length fids > 1) (key_buckets checker features)))))"

subsection \<open>Consolidation\<close>

text \<open>
  \<^verbatim>\<open>_consolidate_groups\<close> keeps a dictionary from feature ids to group objects and merges
  into those objects in place. The accepted groups are the list \<^verbatim>\<open>consolidated\<close>; a group
  object is named by its position in that list, so \<open>feature_to_group\<close> maps an id to a
  position and a merge updates the list there. The first id of the group, in the order of
  the iteration of its set, that has an owner decides; a group object is truthy, so
  \<^verbatim>\<open>if existing_group\<close> holds whenever one was found.
\<close>

fun first_owner :: "(int \<rightharpoonup> nat) \<Rightarrow> int list \<Rightarrow> nat option" where
  "first_owner feature_to_group [] = None"
| "first_owner feature_to_group (fid' # rest) =
     (case feature_to_group fid' of
        Some k \<Rightarrow> Some k
      | None \<Rightarrow> first_owner feature_to_group rest)"

definition assign_owner :: "nat \<Rightarrow> int list \<Rightarrow> (int \<rightharpoonup> nat) \<Rightarrow> (int \<rightharpoonup> nat)" where
  "assign_owner k fids feature_to_group = fold (\<lambda>fid' m. m(fid' \<mapsto> k)) fids feature_to_group"

definition consolidate_step ::
  "environment \<Rightarrow> DuplicateGroup \<Rightarrow> (int \<rightharpoonup> nat) \<times> DuplicateGroup list \<Rightarrow>
   (int \<rightharpoonup> nat) \<times> DuplicateGroup list" where
  "consolidate_step env grp st =
     (case st of (feature_to_group, consolidated) \<Rightarrow>
        (let fids = set_order env (feature_ids grp)
         in (case first_owner feature_to_group fids of
               Some k \<Rightarrow>
                 (assign_owner k fids feature_to_group,
                  consolidated[k := merge_with (consolidated ! k) grp])
             | None \<Rightarrow>
                 (assign_owner (length consolidated) fids feature_to_group,
                  consolidated @ [grp]))))"

definition consolidate_groups :: "environment \<Rightarrow> DuplicateGroup list \<Rightarrow> DuplicateGroup list" where
  "consolidate_groups env groups' =
     (if groups' = [] then []
      else snd (fold (consolidate_step env) groups' (Map.empty, [])))"

subsection \<open>detect\<close>

definition sample_features ::
  "environment \<Rightarrow> DuplicateDetector \<Rightarrow> QgsVectorLayer \<Rightarrow> error + QgsFeature list" where
  "sample_features env self layer =
     (let all_ids = map fid (getFeatures layer);
          k = min (self_sample_size self) (int (length all_ids))
      in if k < 0 then Inl (ValueError ''Sample larger than population or is negative'')
         else Inr (filter (\<lambda>f. fid f \<in> set (random_sample env all_ids (nat k)))
                          (getFeatures layer)))"

text \<open>
  \<^verbatim>\<open>detect\<close>. A raised exception is the result \<open>Inl\<close>. The progress callback is not
  modelled. The steps are in the order of the source: the features, the detection pass,
  the priority rules when the dictionary of rules is not empty, the consolidation.
\<close>

definition detect :: "environment \<Rightarrow> DuplicateDetector \<Rightarrow> error + DuplicateGroup list" where
  "detect env self =
     (case self_layer self of
        None \<Rightarrow> Inl (ValueError ''Invalid or missing layer'')
      | Some layer \<Rightarrow>
          if \<not> isValid layer then Inl (ValueError ''Invalid or missing layer'')
          else
            (case (if self_sample_mode self \<and>
                      int (length (getFeatures layer)) > self_sample_size self
                   then sample_features env self layer
                   else Inr (getFeatures layer)) of
               Inl e \<Rightarrow> Inl e
             | Inr features \<Rightarrow>
                 (case (if self_detection_type self = ''geometry''
                        then Inr (detect_geometry_duplicates env self features)
                        else detect_attribute_duplicates self features) of
                    Inl e \<Rightarrow> Inl e
                  | Inr groups' \<Rightarrow>
                      Inr (consolidate_groups env
                             (case self_priority_rules self of
                                None \<Rightarrow> groups'
                              | Some rules \<Rightarrow> resolve env layer rules groups')))))"

text \<open>
  The attribute \<^verbatim>\<open>self._groups\<close> is assigned only on the path that returns: a call that
  raises leaves it as it was.
\<close>

definition detect_call ::
  "environment \<Rightarrow> DuplicateDetector \<Rightarrow> DuplicateGroup list \<Rightarrow>
   (error + DuplicateGroup list) \<times> DuplicateGroup list" where
  "detect_call env self stored_groups =
     (case detect env self of
        Inl e \<Rightarrow> (Inl e, stored_groups)
      | Inr result \<Rightarrow> (Inr result, result))"

subsection \<open>The partition of the feature ids\<close>

text \<open>No feature id is in two groups of the list: the groups are disjoint, pair by pair.\<close>

fun disjoint_groups :: "DuplicateGroup list \<Rightarrow> bool" where
  "disjoint_groups [] = True"
| "disjoint_groups (g # gs) =
     ((\<forall>h \<in> set gs. feature_ids g \<inter> feature_ids h = {}) \<and> disjoint_groups gs)"

section \<open>Notions for the statements\<close>

text \<open>
  The candidates that \<open>scan_feature\<close> compares with the seed \<open>f\<close>, in the order of the
  comparisons: those of the index that pass the four tests of the loop. Each of them is in
  the cache; \<open>candidate_comparison\<close> is the result of its comparison with the seed.
\<close>

definition compared_candidates ::
  "environment \<Rightarrow> real \<Rightarrow> QgsFeature list \<Rightarrow> (int \<rightharpoonup> QgsFeature) \<Rightarrow> int set \<Rightarrow> QgsFeature \<Rightarrow>
   int list" where
  "compared_candidates env tol indexed feature_cache done f =
     filter (\<lambda>cid. cid \<noteq> fid f \<and> cid \<notin> done \<and>
                    (case feature_cache cid of None \<Rightarrow> False
                     | Some c \<Rightarrow> \<not> isNull (geometry c)))
            (spatial_intersects env indexed (rect_grow (boundingBox (geometry f)) tol))"

definition candidate_comparison ::
  "environment \<Rightarrow> GeometryChecker \<Rightarrow> real \<Rightarrow> (int \<rightharpoonup> QgsFeature) \<Rightarrow> QgsFeature \<Rightarrow> int \<Rightarrow>
   comparison" where
  "candidate_comparison env chk tol feature_cache f cid =
     compare env chk (geometry f) (geometry (the (feature_cache cid))) (Some tol)"

text \<open>
  What every step of the scan keeps: the members of a group are processed, a group is
  finite with two members at least, its members satisfy \<open>Q\<close>, and the groups are disjoint.
\<close>

definition scan_invariant :: "(int \<Rightarrow> bool) \<Rightarrow> scan_state \<Rightarrow> bool" where
  "scan_invariant Q st \<longleftrightarrow>
     (\<forall>g \<in> set (groups st). feature_ids g \<subseteq> processed st \<and> finite (feature_ids g) \<and>
                             2 \<le> card (feature_ids g) \<and> (\<forall>i \<in> feature_ids g. Q i)) \<and>
     disjoint_groups (groups st)"




section \<open>Concrete inputs\<close>

text \<open>
  An environment to evaluate the definitions in: no Hausdorff distance is available, the
  index answers every feature with a bounding box that meets the rectangle, a set is
  iterated in increasing order, a sample is the first ids, and the field rule is
  undecided.
\<close>

definition example_env :: environment where
  "example_env =
     \<lparr>hausdorffDistance = (\<lambda>g1 g2. None),
      spatial_intersects =
        (\<lambda>indexed rect. map fid (filter (\<lambda>f. \<not> isNull (geometry f) \<and>
                                              rect_intersects (boundingBox (geometry f)) rect)
                                        indexed)),
      set_order = sorted_list_of_set,
      random_sample = (\<lambda>population k. take k population),
      field_rule = (\<lambda>rules features candidates. None)\<rparr>"

text \<open>A point geometry at \<open>(x, y)\<close> with the digest \<open>h\<close>, and a feature with no fields.\<close>

definition point_geometry :: "string \<Rightarrow> real \<Rightarrow> real \<Rightarrow> QgsGeometry" where
  "point_geometry h x y =
     Geometry h (Some (x, y)) \<lparr>xMinimum = x, yMinimum = y, xMaximum = x, yMaximum = y\<rparr>
       0 False []"

definition point_feature :: "int \<Rightarrow> QgsGeometry \<Rightarrow> QgsFeature" where
  "point_feature i g = \<lparr>fid = i, geometry = g, attributes = []\<rparr>"

text \<open>Digests for the geometries of the examples, one for each normalised geometry.\<close>

definition digest_a :: string where
  "digest_a = ''0cc175b9c0f1b6a831c399e269772661''"

definition digest_b :: string where
  "digest_b = ''92eb5ffee6ae2fec3ad71c777531578f''"

definition digest_c :: string where
  "digest_c = ''4a8a08f09d37b73795649038408b5f33''"

definition digest_d :: string where
  "digest_d = ''8277e0910d750195b448797616e091ad''"

definition digest_e :: string where
  "digest_e = ''e1671797c52e15f763380b45e841ec32''"

definition exact_checker :: GeometryChecker where
  "exact_checker = \<lparr>gc_tolerance = 0, gc_compare_method = 0, gc_decompose_multipart = False\<rparr>"

definition decomposing_checker :: GeometryChecker where
  "decomposing_checker =
     \<lparr>gc_tolerance = 0, gc_compare_method = 0, gc_decompose_multipart = True\<rparr>"

text \<open>A multipart geometry with the digest \<open>h\<close>, of the given parts.\<close>

definition multi_geometry :: "string \<Rightarrow> QgsGeometry list \<Rightarrow> QgsGeometry" where
  "multi_geometry h parts =
     Geometry h (Some (0, 0)) \<lparr>xMinimum = 0, yMinimum = 0, xMaximum = 1, yMaximum = 1\<rparr>
       0 True parts"

text \<open>A detector with the defaults of \<^verbatim>\<open>DuplicateDetector.__init__\<close>, on a layer.\<close>

definition default_detector :: "QgsVectorLayer option \<Rightarrow> DuplicateDetector" where
  "default_detector l =
     \<lparr>self_layer = l, self_detection_type = ''geometry'', self_tolerance = 0,
      self_compare_method = 0, self_decompose_multipart = False, self_fields = [],
      self_normalize_attributes = True, self_ignore_null = False,
      self_priority_rules = None, self_sample_mode = False, self_sample_size = 5000\<rparr>"

definition point_layer :: "QgsFeature list \<Rightarrow> QgsVectorLayer" where
  "point_layer fs = \<lparr>isValid = True, getFeatures = fs, layer_fields = [], geometryType = 0\<rparr>"

definition name_checker :: "bool \<Rightarrow> AttributeChecker" where
  "name_checker skip_null =
     \<lparr>ac_fields = [''name'', ''code''], ac_normalize = True, ac_ignore_null = skip_null,
      ac_case_sensitive = False, ac_fuzzy_threshold = 0\<rparr>"

definition named_feature :: "int \<Rightarrow> (string \<times> attr_value) list \<Rightarrow> QgsFeature" where
  "named_feature i attrs = \<lparr>fid = i, geometry = NullGeometry, attributes = attrs\<rparr>"

definition centroid_checker :: GeometryChecker where
  "centroid_checker = \<lparr>gc_tolerance = 1, gc_compare_method = 1, gc_decompose_multipart = False\<rparr>"

text \<open>
  Three points: the second is at distance 0.5 of the first; the third is in the search
  rectangle of the first for the tolerance 1, and farther than 1 from it.
\<close>

definition three_points :: "QgsFeature list" where
  "three_points =
     [point_feature 1 (point_geometry digest_a 0 0),
      point_feature 2 (point_geometry digest_b 0 (1 / 2)),
      point_feature 3 (point_geometry digest_c (9 / 10) (9 / 10))]"

text \<open>Two features with the same geometry and one with none.\<close>

definition two_equal_one_null :: "QgsFeature list" where
  "two_equal_one_null =
     [point_feature 1 (point_geometry digest_a 0 0),
      point_feature 2 (point_geometry digest_a 0 0),
      point_feature 3 NullGeometry]"

text \<open>The rules \<^verbatim>\<open>{'fid_fallback': True}\<close>: only the id fallback is enabled.\<close>

definition fallback_only :: priority_rules where
  "fallback_only =
     \<lparr>rule_field = None, rule_field_order = 0, rule_completeness = False, rule_area = None,
      rule_fid_fallback = True\<rparr>"


section \<open>Properties of the Levenshtein distance\<close>

text \<open>The rows of the loop are the rows of the table.\<close>

lemma edit_table_zero_right: "edit_table s t i 0 = i"
  by (cases i) simp_all

lemma edit_table_sym: "edit_table s t i j = edit_table t s j i"
proof (induction s t i j rule: edit_table.induct)
  case (1 s t j)
  then show ?case by (simp add: edit_table_zero_right)
next
  case (2 s t i)
  then show ?case by simp
next
  case (3 s t i j)
  then show ?case by (simp add: min.commute min.left_commute eq_commute)
qed

lemma edit_table_diag: "edit_table s s i i = 0"
  by (induction i) simp_all

lemma lev_inner_row:
  assumes "previous_row = map (edit_table s t i) [0 ..< Suc (length t)]"
      and "i < length s" and "c1 = s ! i"
  shows "j \<le> length t \<Longrightarrow> rest = drop j t \<Longrightarrow>
         current_row = map (edit_table s t (Suc i)) [0 ..< Suc j] \<Longrightarrow>
         lev_inner c1 rest j previous_row current_row =
           map (edit_table s t (Suc i)) [0 ..< Suc (length t)]"
proof (induction rest arbitrary: j current_row)
  case Nil
  then have "j = length t" by simp
  with Nil show ?case by simp
next
  case (Cons c2 rest)
  from Cons.prems have jlt: "j < length t" by (cases "j < length t") auto
  with Cons.prems have c2: "c2 = t ! j" and rest: "rest = drop (Suc j) t"
    by (auto simp: Cons_nth_drop_Suc[symmetric])
  have p1: "previous_row ! (j + 1) = edit_table s t i (Suc j)"
    using assms(1) jlt by (simp add: nth_append del: upt_Suc)
  have p0: "previous_row ! j = edit_table s t i j"
    using assms(1) jlt by (simp add: nth_append del: upt_Suc)
  have c0: "current_row ! j = edit_table s t (Suc i) j"
    using Cons.prems(3) by (simp add: nth_append del: upt_Suc)
  have new: "current_row @ [min (previous_row ! (j + 1) + 1)
        (min (current_row ! j + 1) (previous_row ! j + (if c1 \<noteq> c2 then 1 else 0)))]
      = map (edit_table s t (Suc i)) [0 ..< Suc (Suc j)]"
    using Cons.prems(3) p1 p0 c0 c2 assms(3) by simp
  show ?case
    using Cons.IH[of "Suc j", OF _ rest new] jlt by (simp add: Let_def del: upt_Suc)
qed

lemma lev_outer_rows:
  "i \<le> length s \<Longrightarrow> rest = drop i s \<Longrightarrow>
   previous_row = map (edit_table s t i) [0 ..< Suc (length t)] \<Longrightarrow>
   lev_outer rest i t previous_row = map (edit_table s t (length s)) [0 ..< Suc (length t)]"
proof (induction rest arbitrary: i previous_row)
  case Nil
  then have "i = length s" by simp
  with Nil show ?case by simp
next
  case (Cons c1 rest)
  from Cons.prems have ilt: "i < length s" by (cases "i < length s") auto
  with Cons.prems have c1: "c1 = s ! i" and rest: "rest = drop (Suc i) s"
    by (auto simp: Cons_nth_drop_Suc[symmetric])
  have start: "[i + 1] = map (edit_table s t (Suc i)) [0 ..< Suc 0]"
    by simp
  have row: "lev_inner c1 t 0 previous_row [i + 1] =
      map (edit_table s t (Suc i)) [0 ..< Suc (length t)]"
    using lev_inner_row[OF Cons.prems(3) ilt c1, of 0 t "[i + 1]"] start by simp
  show ?case
    using Cons.IH[of "Suc i", OF _ rest row] ilt by (simp del: upt_Suc)
qed

lemma lev_outer_table:
  "last (lev_outer s 0 t [0 ..< Suc (length t)]) = edit_table s t (length s) (length t)"
proof -
  have init: "[0 ..< Suc (length t)] = map (edit_table s t 0) [0 ..< Suc (length t)]"
    by (simp add: map_idI del: upt_Suc)
  have "lev_outer s 0 t [0 ..< Suc (length t)] =
      map (edit_table s t (length s)) [0 ..< Suc (length t)]"
    using lev_outer_rows[of 0 s s "[0 ..< Suc (length t)]" t] init by simp
  then show ?thesis by (simp add: last_map)
qed

lemma levenshtein_distance_table:
  "levenshtein_distance s1 s2 = edit_table s1 s2 (length s1) (length s2)"
proof (induction s1 s2 rule: levenshtein_distance.induct)
  case (1 s1 s2)
  show ?case
  proof (cases "length s1 < length s2")
    case True
    then show ?thesis
      using "1.IH" edit_table_sym[of s2 s1] by (subst levenshtein_distance.simps) simp
  next
    case False
    then show ?thesis
      by (subst levenshtein_distance.simps) (simp add: lev_outer_table edit_table_zero_right del: upt_Suc)
  qed
qed

text \<open>The recursive distance is the cost of a cheapest edit script.\<close>

lemma edits_insert_all: "edits [] t (length t)"
  by (induction t) (auto intro: edits.nil edits.insert)

lemma edits_delete_all: "edits s [] (length s)"
  by (induction s) (auto intro: edits.nil edits.delete)

lemma edits_edit_distance: "edits s t (edit_distance s t)"
proof (induction s t rule: edit_distance.induct)
  case (1 t)
  show ?case by (simp add: edits_insert_all)
next
  case (2 x s)
  from edits.delete[OF edits_delete_all, of x s] show ?case by simp
next
  case (3 x s y t)
  let ?a = "edit_distance s (y # t) + 1" and ?b = "edit_distance (x # s) t + 1"
  let ?c = "edit_distance s t + (if x \<noteq> y then 1 else 0)"
  have a: "edits (x # s) (y # t) ?a" using edits.delete[OF "3.IH"(1)] by simp
  have b: "edits (x # s) (y # t) ?b" using edits.insert[OF "3.IH"(2)] by simp
  have c: "edits (x # s) (y # t) ?c"
    using edits.keep[OF "3.IH"(3), of x] edits.substitute[OF "3.IH"(3), of x y] by auto
  have "edit_distance (x # s) (y # t) = ?a \<or> edit_distance (x # s) (y # t) = ?b \<or>
        edit_distance (x # s) (y # t) = ?c"
    unfolding edit_distance.simps by (simp only: min_def split: if_splits) metis
  with a b c show ?case by metis
qed

lemma edit_distance_nil_right: "edit_distance s [] = length s"
  by (cases s) simp_all

lemma edit_distance_delete: "edit_distance (x # s) t \<le> Suc (edit_distance s t)"
  by (cases t) (simp_all add: edit_distance_nil_right)

lemma edit_distance_insert: "edit_distance s (y # t) \<le> Suc (edit_distance s t)"
  by (cases s) (simp_all add: edit_distance_nil_right)

lemma edit_distance_least: "edits s t n \<Longrightarrow> edit_distance s t \<le> n"
proof (induction rule: edits.induct)
  case nil
  show ?case by simp
next
  case (delete s t n x)
  with edit_distance_delete[of x s t] show ?case by simp
next
  case (insert s t n y)
  with edit_distance_insert[of s y t] show ?case by simp
next
  case (keep s t n x)
  then show ?case by simp
next
  case (substitute s t n x y)
  then show ?case by (auto simp: min_le_iff_disj)
qed

text \<open>An edit script can be continued at the end of the strings, and so read backwards.\<close>

lemma edits_delete_last: "edits s t n \<Longrightarrow> edits (s @ [x]) t (Suc n)"
proof (induction rule: edits.induct)
  case nil
  from edits.delete[OF edits.nil, of x] show ?case by simp
next
  case (delete s t n x')
  from edits.delete[OF delete.IH, of x'] show ?case by simp
next
  case (insert s t n y')
  from edits.insert[OF insert.IH, of y'] show ?case by simp
next
  case (keep s t n x')
  from edits.keep[OF keep.IH, of x'] show ?case by simp
next
  case (substitute s t n x' y')
  from edits.substitute[OF substitute.IH, of x' y'] show ?case by simp
qed

lemma edits_insert_last: "edits s t n \<Longrightarrow> edits s (t @ [y]) (Suc n)"
proof (induction rule: edits.induct)
  case nil
  from edits.insert[OF edits.nil, of y] show ?case by simp
next
  case (delete s t n x')
  from edits.delete[OF delete.IH, of x'] show ?case by simp
next
  case (insert s t n y')
  from edits.insert[OF insert.IH, of y'] show ?case by simp
next
  case (keep s t n x')
  from edits.keep[OF keep.IH, of x'] show ?case by simp
next
  case (substitute s t n x' y')
  from edits.substitute[OF substitute.IH, of x' y'] show ?case by simp
qed

lemma edits_keep_last: "edits s t n \<Longrightarrow> edits (s @ [x]) (t @ [x]) n"
proof (induction rule: edits.induct)
  case nil
  from edits.keep[OF edits.nil, of x] show ?case by simp
next
  case (delete s t n x')
  from edits.delete[OF delete.IH, of x'] show ?case by simp
next
  case (insert s t n y')
  from edits.insert[OF insert.IH, of y'] show ?case by simp
next
  case (keep s t n x')
  from edits.keep[OF keep.IH, of x'] show ?case by simp
next
  case (substitute s t n x' y')
  from edits.substitute[OF substitute.IH, of x' y'] show ?case by simp
qed

lemma edits_substitute_last: "edits s t n \<Longrightarrow> edits (s @ [x]) (t @ [y]) (Suc n)"
proof (induction rule: edits.induct)
  case nil
  from edits.substitute[OF edits.nil, of x y] show ?case by simp
next
  case (delete s t n x')
  from edits.delete[OF delete.IH, of x'] show ?case by simp
next
  case (insert s t n y')
  from edits.insert[OF insert.IH, of y'] show ?case by simp
next
  case (keep s t n x')
  from edits.keep[OF keep.IH, of x'] show ?case by simp
next
  case (substitute s t n x' y')
  from edits.substitute[OF substitute.IH, of x' y'] show ?case by simp
qed

lemma edits_rev: "edits s t n \<Longrightarrow> edits (rev s) (rev t) n"
proof (induction rule: edits.induct)
  case nil
  show ?case by (simp add: edits.nil)
next
  case (delete s t n x)
  from edits_delete_last[OF delete.IH, of x] show ?case by simp
next
  case (insert s t n y)
  from edits_insert_last[OF insert.IH, of y] show ?case by simp
next
  case (keep s t n x)
  from edits_keep_last[OF keep.IH, of x] show ?case by simp
next
  case (substitute s t n x y)
  from edits_substitute_last[OF substitute.IH, of x y] show ?case by simp
qed

lemma edit_distance_rev: "edit_distance (rev s) (rev t) = edit_distance s t"
proof (rule antisym)
  show "edit_distance (rev s) (rev t) \<le> edit_distance s t"
    using edits_rev[OF edits_edit_distance, of s t] by (rule edit_distance_least)
  have "edits (rev (rev s)) (rev (rev t)) (edit_distance (rev s) (rev t))"
    using edits_edit_distance by (rule edits_rev)
  then have "edits s t (edit_distance (rev s) (rev t))" by simp
  then show "edit_distance s t \<le> edit_distance (rev s) (rev t)"
    by (rule edit_distance_least)
qed

text \<open>The table holds the distances of the prefixes.\<close>

lemma edit_table_prefixes:
  "i \<le> length s \<Longrightarrow> j \<le> length t \<Longrightarrow>
   edit_table s t i j = edit_distance (rev (take i s)) (rev (take j t))"
proof (induction s t i j rule: edit_table.induct)
  case (1 s t j)
  then show ?case by simp
next
  case (2 s t i)
  then show ?case by (simp add: edit_distance_nil_right)
next
  case (3 s t i j)
  then have i: "i < length s" and j: "j < length t" by simp_all
  have ts: "rev (take (Suc i) s) = s ! i # rev (take i s)"
    using i by (simp add: take_Suc_conv_app_nth)
  have tt: "rev (take (Suc j) t) = t ! j # rev (take j t)"
    using j by (simp add: take_Suc_conv_app_nth)
  from "3.IH" i j have
    a: "edit_table s t i (Suc j) = edit_distance (rev (take i s)) (t ! j # rev (take j t))" and
    b: "edit_table s t (Suc i) j = edit_distance (s ! i # rev (take i s)) (rev (take j t))" and
    c: "edit_table s t i j = edit_distance (rev (take i s)) (rev (take j t))"
    by (simp_all add: ts tt)
  show ?case
    unfolding ts tt edit_table.simps edit_distance.simps a b c by (rule refl)
qed

lemma edit_table_edit_distance:
  "edit_table s t (length s) (length t) = edit_distance s t"
  using edit_table_prefixes[of "length s" s "length t" t] by (simp add: edit_distance_rev)

text \<open>
  Claim C8. The Levenshtein implementation computes the classic unit-cost edit distance:
  for all strings its result is the last entry of the dynamic-programming table, which is
  the distance defined by recursion on the two strings, and that is the cost of a
  cheapest edit script of insertions, deletions and substitutions. The distance from
  "kitten" to "sitting" is 3, from "" to "abc" is 3 and from "abc" to "abc" is 0; the
  distance between equal strings is 0; the distance against the empty string is the other
  string's length; and the similarity of two identical strings is exactly 1.
\<close>

theorem levenshtein_correct:
  "levenshtein_distance ''kitten'' ''sitting'' = 3 \<and>
   levenshtein_distance '''' ''abc'' = 3 \<and>
   levenshtein_distance ''abc'' ''abc'' = 0 \<and>
   levenshtein_similarity s s = 1 \<and>
   levenshtein_distance s s = 0 \<and>
   levenshtein_distance s [] = length s \<and>
   levenshtein_distance [] s = length s \<and>
   levenshtein_distance s t = edit_table s t (length s) (length t) \<and>
   levenshtein_distance s t = edit_distance s t \<and>
   edits s t (levenshtein_distance s t) \<and>
   (\<forall>n. edits s t n \<longrightarrow> levenshtein_distance s t \<le> n)"
proof -
  have k: "levenshtein_distance ''kitten'' ''sitting'' = 3" by code_simp
  have e: "levenshtein_distance '''' ''abc'' = 3" by code_simp
  have a: "levenshtein_distance ''abc'' ''abc'' = 0" by code_simp
  have sim: "levenshtein_similarity s s = 1" by (simp add: levenshtein_similarity_def)
  have same: "levenshtein_distance s s = 0"
    by (simp add: levenshtein_distance_table edit_table_diag)
  have right: "levenshtein_distance s [] = length s"
    by (simp add: levenshtein_distance_table edit_table_zero_right)
  have left: "levenshtein_distance [] s = length s"
    by (simp add: levenshtein_distance_table)
  have rec: "levenshtein_distance s t = edit_distance s t"
    by (simp add: levenshtein_distance_table edit_table_edit_distance)
  have script: "edits s t (levenshtein_distance s t)"
    unfolding rec by (rule edits_edit_distance)
  have least: "\<forall>n. edits s t n \<longrightarrow> levenshtein_distance s t \<le> n"
    unfolding rec using edit_distance_least by blast
  show ?thesis
    using k e a sim same right left levenshtein_distance_table[of s t] rec script least
    by blast
qed

theorem levenshtein_correct_witness:
  "edits ''ab'' ''a'' 1 \<and> levenshtein_distance ''ab'' ''a'' \<le> 1 \<and>
   levenshtein_distance ''ab'' ''a'' = edit_distance ''ab'' ''a''"
proof -
  have "edits ''b'' '''' (Suc 0)"
    by (rule edits.delete) (rule edits.nil)
  then have s: "edits ''ab'' ''a'' 1"
    using edits.keep[of "''b''" "''''" "Suc 0" "CHR ''a''"] by simp
  with levenshtein_correct[of "''ab''" "''a''"] show ?thesis by blast
qed

section \<open>Properties of the geometry checker\<close>

lemma compare_single_wkb:
  "gc_compare_method chk \<notin> {1, 2, 3} \<Longrightarrow> compare_single env chk g1 g2 tol = compare_wkb g1 g2"
  by (simp add: compare_single_def)

lemma get_parts_single: "\<not> isNull g \<Longrightarrow> \<not> isMultipart g \<Longrightarrow> get_parts g = [g]"
  by (simp add: get_parts_def)

lemma compare_undecomposed:
  assumes "\<not> isNull g1" "\<not> isNull g2"
      and "\<not> gc_decompose_multipart chk \<or> (\<not> isMultipart g1 \<and> \<not> isMultipart g2)"
  shows "fst (compare env chk g1 g2 (Some tol)) = fst (compare_single env chk g1 g2 tol)"
    and "fst (compare_single env chk g1 g2 tol) \<Longrightarrow>
         compare env chk g1 g2 (Some tol) = compare_single env chk g1 g2 tol"
proof -
  have "fst (compare env chk g1 g2 (Some tol)) = fst (compare_single env chk g1 g2 tol) \<and>
        (fst (compare_single env chk g1 g2 tol) \<longrightarrow>
         compare env chk g1 g2 (Some tol) = compare_single env chk g1 g2 tol)"
  proof (cases "gc_decompose_multipart chk")
    case False
    with assms show ?thesis by (simp add: compare_def)
  next
    case True
    with assms have p: "get_parts g1 = [g1]" "get_parts g2 = [g2]"
      by (simp_all add: get_parts_single)
    show ?thesis
      using assms(1,2) True p
      by (cases "compare_single env chk g1 g2 tol") (auto simp: compare_def)
  qed
  then show "fst (compare env chk g1 g2 (Some tol)) = fst (compare_single env chk g1 g2 tol)"
    and "fst (compare_single env chk g1 g2 tol) \<Longrightarrow>
         compare env chk g1 g2 (Some tol) = compare_single env chk g1 g2 tol"
    by simp_all
qed

lemma digest_not_sentinel: "length s = 32 \<Longrightarrow> s \<noteq> ''NULL''"
  by auto

lemma compare_null:
  "isNull g1 \<or> isNull g2 \<Longrightarrow>
   compare env chk g1 g2 tol = (False, 0, Text ''One or both geometries are NULL'')"
  by (auto simp: compare_def Let_def)

text \<open>
  Claim C2, as amended. Under the exact-hash method, with decomposition off or on
  single-part geometries, and for geometries \<open>A\<close> and \<open>B\<close> that are not both null (a
  digest has 32 characters): \<open>hash_geometry A = hash_geometry B\<close> holds if and only if
  \<open>compare A B\<close> with tolerance 0 reports a match with score 1. Two null geometries both
  hash to the sentinel \<open>NULL\<close>, and \<open>compare\<close> reports no match for them, with score 0.
\<close>

theorem exact_hash_iff_compare:
  "(hash_geometry NullGeometry = ''NULL'' \<and>
    compare env chk NullGeometry NullGeometry tol =
      (False, 0, Text ''One or both geometries are NULL'')) \<and>
   (gc_compare_method chk \<notin> {1, 2, 3} \<and>
    (\<not> gc_decompose_multipart chk \<or> (\<not> isMultipart A \<and> \<not> isMultipart B)) \<and>
    (\<not> isNull A \<longrightarrow> length (wkb_md5 A) = 32) \<and>
    (\<not> isNull B \<longrightarrow> length (wkb_md5 B) = 32) \<and>
    \<not> (isNull A \<and> isNull B) \<longrightarrow>
    (hash_geometry A = hash_geometry B \<longleftrightarrow>
       fst (compare env chk A B (Some 0)) \<and> fst (snd (compare env chk A B (Some 0))) = 1))"
proof (intro conjI impI)
  show "hash_geometry NullGeometry = ''NULL''" by (simp add: hash_geometry_def)
  show "compare env chk NullGeometry NullGeometry tol =
      (False, 0, Text ''One or both geometries are NULL'')"
    by (simp add: compare_null)
next
  assume h: "gc_compare_method chk \<notin> {1, 2, 3} \<and>
    (\<not> gc_decompose_multipart chk \<or> (\<not> isMultipart A \<and> \<not> isMultipart B)) \<and>
    (\<not> isNull A \<longrightarrow> length (wkb_md5 A) = 32) \<and>
    (\<not> isNull B \<longrightarrow> length (wkb_md5 B) = 32) \<and>
    \<not> (isNull A \<and> isNull B)"
  show "hash_geometry A = hash_geometry B \<longleftrightarrow>
       fst (compare env chk A B (Some 0)) \<and> fst (snd (compare env chk A B (Some 0))) = 1"
  proof (cases "isNull A \<or> isNull B")
    case True
    with h have "hash_geometry A \<noteq> hash_geometry B"
      using digest_not_sentinel[of "wkb_md5 A"] digest_not_sentinel[of "wkb_md5 B"]
      by (auto simp: hash_geometry_def)
    moreover have "\<not> fst (compare env chk A B (Some 0))"
      using True by (simp add: compare_null)
    ultimately show ?thesis by simp
  next
    case False
    with h have single: "compare_single env chk A B 0 = compare_wkb A B"
      by (simp add: compare_single_wkb)
    from False h have m: "fst (compare env chk A B (Some 0)) = fst (compare_wkb A B)"
      using compare_undecomposed(1)[of A B chk env 0] single by simp
    from False h have r: "fst (compare_wkb A B) \<Longrightarrow> compare env chk A B (Some 0) = compare_wkb A B"
      using compare_undecomposed(2)[of A B chk env 0] single by simp
    show ?thesis
    proof (cases "hash_geometry A = hash_geometry B")
      case True
      then have "compare_wkb A B = (True, 1, Text ''Exact WKB match'')"
        by (simp add: compare_wkb_def)
      with r True show ?thesis by simp
    next
      case False
      then have "\<not> fst (compare_wkb A B)" by (simp add: compare_wkb_def)
      with m False show ?thesis by simp
    qed
  qed
qed

theorem exact_hash_iff_compare_witness:
  "hash_geometry (point_geometry digest_a 0 0) = hash_geometry (point_geometry digest_a 0 0) \<and>
   compare example_env exact_checker (point_geometry digest_a 0 0) (point_geometry digest_a 0 0)
     (Some 0) = (True, 1, Text ''Exact WKB match'') \<and>
   hash_geometry (point_geometry digest_a 0 0) \<noteq> hash_geometry NullGeometry \<and>
   \<not> fst (compare example_env exact_checker (point_geometry digest_a 0 0) NullGeometry (Some 0))"
  using exact_hash_iff_compare[where env = example_env and chk = exact_checker
          and A = "point_geometry digest_a 0 0" and B = "point_geometry digest_a 0 0"]
        exact_hash_iff_compare[where env = example_env and chk = exact_checker
          and A = "point_geometry digest_a 0 0" and B = NullGeometry]
  by (simp add: exact_checker_def point_geometry_def digest_a_def hash_geometry_def
        compare_def compare_single_def compare_wkb_def)

text \<open>
  Claim C2 as stated fails for two null geometries: their hashes are equal and
  \<open>compare\<close> does not report a match. It fails as well when the checker decomposes
  multipart geometries: two geometries with different hashes that share a part match
  with score 1.
\<close>

theorem null_geometries_hash_equal_counterexample:
  "\<not> (hash_geometry NullGeometry = hash_geometry NullGeometry \<longleftrightarrow>
        fst (compare example_env exact_checker NullGeometry NullGeometry (Some 0)) \<and>
        fst (snd (compare example_env exact_checker NullGeometry NullGeometry (Some 0))) = 1) \<and>
   \<not> (hash_geometry (multi_geometry digest_a [point_geometry digest_b 0 0, point_geometry digest_c 1 1]) =
        hash_geometry (multi_geometry digest_d [point_geometry digest_b 0 0, point_geometry digest_e 1 0])
        \<longleftrightarrow>
        fst (compare example_env decomposing_checker
               (multi_geometry digest_a [point_geometry digest_b 0 0, point_geometry digest_c 1 1])
               (multi_geometry digest_d [point_geometry digest_b 0 0, point_geometry digest_e 1 0])
               (Some 0)) \<and>
        fst (snd (compare example_env decomposing_checker
               (multi_geometry digest_a [point_geometry digest_b 0 0, point_geometry digest_c 1 1])
               (multi_geometry digest_d [point_geometry digest_b 0 0, point_geometry digest_e 1 0])
               (Some 0))) = 1)"
  by (simp add: compare_def compare_single_def compare_wkb_def hash_geometry_def get_parts_def
        multi_geometry_def point_geometry_def decomposing_checker_def digest_a_def digest_d_def)

text \<open>
  Claim C7. For geometries that are not null, the centroid comparison reports no match
  when either centroid is null; otherwise it matches if and only if the Euclidean
  distance of the centroids is at most the tolerance, and on a match the score is
  \<open>max 0.5 (1 - distance / tolerance)\<close> when the tolerance is positive and 1 when it is 0.
\<close>

theorem compare_centroid_spec:
  assumes "\<not> isNull g1" and "\<not> isNull g2"
  shows "(centroid g1 = None \<or> centroid g2 = None \<longrightarrow>
            compare_centroid g1 g2 tol = (False, 0, Text ''Could not compute centroid'')) \<and>
         (\<forall>c1 c2. centroid g1 = Some c1 \<and> centroid g2 = Some c2 \<longrightarrow>
            (fst (compare_centroid g1 g2 tol) \<longleftrightarrow> point_distance c1 c2 \<le> tol) \<and>
            (point_distance c1 c2 \<le> tol \<and> tol > 0 \<longrightarrow>
               fst (snd (compare_centroid g1 g2 tol)) = max (1 / 2) (1 - point_distance c1 c2 / tol)) \<and>
            (point_distance c1 c2 \<le> tol \<and> tol = 0 \<longrightarrow>
               fst (snd (compare_centroid g1 g2 tol)) = 1))"
  by (auto simp: compare_centroid_def Let_def split: option.splits)

theorem compare_centroid_spec_witness:
  "fst (compare_centroid (point_geometry digest_a 0 0) (point_geometry digest_b 0 (1 / 2)) 1) \<and>
   fst (snd (compare_centroid (point_geometry digest_a 0 0) (point_geometry digest_b 0 (1 / 2)) 1))
     = 1 / 2 \<and>
   \<not> fst (compare_centroid (point_geometry digest_a 0 0) (point_geometry digest_b 0 2) 1) \<and>
   \<not> fst (compare_centroid (point_geometry digest_a 0 0)
            (Geometry digest_c None \<lparr>xMinimum = 0, yMinimum = 0, xMaximum = 0, yMaximum = 0\<rparr>
               0 False []) 1)"
  using compare_centroid_spec[of "point_geometry digest_a 0 0" "point_geometry digest_b 0 (1 / 2)" 1]
        compare_centroid_spec[of "point_geometry digest_a 0 0" "point_geometry digest_b 0 2" 1]
        compare_centroid_spec[of "point_geometry digest_a 0 0"
          "Geometry digest_c None \<lparr>xMinimum = 0, yMinimum = 0, xMaximum = 0, yMaximum = 0\<rparr> 0 False []" 1]
  by (simp add: point_geometry_def real_sqrt_divide)

section \<open>Errors of detect\<close>

text \<open>
  Claim C5. \<open>detect\<close> raises, and returns no list of groups, when the layer is missing or
  invalid, and when the detection type is not geometry and the list of fields is empty.
  The stored groups are left as they were. The first error is "Invalid or missing layer";
  the second is "No fields specified for attribute detection", unless sampling with a
  negative sample size has raised before.
\<close>

theorem detect_fails_fast:
  "((self_layer self = None \<or> (\<exists>l. self_layer self = Some l \<and> \<not> isValid l)) \<longrightarrow>
      detect env self = Inl (ValueError ''Invalid or missing layer'') \<and>
      detect_call env self stored = (Inl (ValueError ''Invalid or missing layer''), stored)) \<and>
   ((\<exists>l. self_layer self = Some l \<and> isValid l) \<and>
    self_detection_type self \<noteq> ''geometry'' \<and> self_fields self = [] \<longrightarrow>
      (\<exists>e. detect env self = Inl e \<and> detect_call env self stored = (Inl e, stored)) \<and>
      (\<not> (self_sample_mode self \<and> self_sample_size self < 0) \<longrightarrow>
         detect env self = Inl (ValueError ''No fields specified for attribute detection'')))"
proof (intro conjI impI)
  assume "self_layer self = None \<or> (\<exists>l. self_layer self = Some l \<and> \<not> isValid l)"
  then show d: "detect env self = Inl (ValueError ''Invalid or missing layer'')"
    by (auto simp: detect_def)
  then show "detect_call env self stored = (Inl (ValueError ''Invalid or missing layer''), stored)"
    by (simp add: detect_call_def)
next
  assume a: "(\<exists>l. self_layer self = Some l \<and> isValid l) \<and>
    self_detection_type self \<noteq> ''geometry'' \<and> self_fields self = []"
  then obtain l where l: "self_layer self = Some l" "isValid l" by blast
  have "\<exists>e. detect env self = Inl e"
    using a l
    by (auto simp: detect_def detect_attribute_duplicates_def split: sum.splits)
  then show "\<exists>e. detect env self = Inl e \<and> detect_call env self stored = (Inl e, stored)"
    by (auto simp: detect_call_def)
  assume "\<not> (self_sample_mode self \<and> self_sample_size self < 0)"
  then show "detect env self = Inl (ValueError ''No fields specified for attribute detection'')"
    using a l
    by (auto simp: detect_def detect_attribute_duplicates_def sample_features_def Let_def
          split: sum.splits)
qed

theorem detect_fails_fast_witness:
  "detect example_env (default_detector None) = Inl (ValueError ''Invalid or missing layer'') \<and>
   detect_call example_env (default_detector None) [] =
     (Inl (ValueError ''Invalid or missing layer''), []) \<and>
   detect example_env
     ((default_detector (Some (point_layer [])))\<lparr>self_detection_type := ''attribute''\<rparr>) =
     Inl (ValueError ''No fields specified for attribute detection'')"
  using detect_fails_fast[of "default_detector None" example_env "[]"]
        detect_fails_fast[of "(default_detector (Some (point_layer [])))\<lparr>self_detection_type := ''attribute''\<rparr>"
          example_env "[]"]
  by (simp add: default_detector_def point_layer_def)

section \<open>Buckets of feature ids\<close>

lemma bucket_append_ids:
  "set (concat (map snd (bucket_append k v al))) = insert v (set (concat (map snd al)))"
proof (induction al)
  case Nil
  show ?case by simp
next
  case (Cons b al)
  obtain k' vs where b: "b = (k', vs)" by (cases b)
  show ?case
  proof (cases "k = k'")
    case True
    with b show ?thesis by (simp del: set_concat)
  next
    case False
    with b Cons.IH show ?thesis by (simp del: set_concat)
  qed
qed

lemma bucket_append_distinct:
  "distinct (concat (map snd al)) \<Longrightarrow> v \<notin> set (concat (map snd al)) \<Longrightarrow>
   distinct (concat (map snd (bucket_append k v al)))"
proof (induction al)
  case Nil
  show ?case by simp
next
  case (Cons b al)
  obtain k' vs where b: "b = (k', vs)" by (cases b)
  show ?case
  proof (cases "k = k'")
    case True
    with b Cons.prems show ?thesis by (simp del: set_concat)
  next
    case False
    from Cons.prems b have d: "distinct (concat (map snd al))"
      and n: "v \<notin> set (concat (map snd al))"
      and vs: "distinct vs" "v \<notin> set vs" "set vs \<inter> set (concat (map snd al)) = {}"
      by (simp_all del: set_concat)
    from Cons.IH[OF d n] False b vs show ?thesis
      by (simp add: bucket_append_ids del: set_concat)
  qed
qed

lemma bucket_fold:
  assumes "distinct (map fid fs)"
      and "distinct (concat (map snd acc))"
      and "set (concat (map snd acc)) \<inter> fid ` set fs = {}"
  shows "distinct (concat (map snd (fold (\<lambda>f a. case key f of None \<Rightarrow> a
                                               | Some k \<Rightarrow> bucket_append k (fid f) a) fs acc))) \<and>
         set (concat (map snd (fold (\<lambda>f a. case key f of None \<Rightarrow> a
                                               | Some k \<Rightarrow> bucket_append k (fid f) a) fs acc))) =
           set (concat (map snd acc)) \<union> fid ` {f \<in> set fs. key f \<noteq> None}"
  using assms
proof (induction fs arbitrary: acc)
  case Nil
  then show ?case by simp
next
  case (Cons f fs)
  from Cons.prems have d: "distinct (map fid fs)" and nf: "fid f \<notin> fid ` set fs"
    and na: "fid f \<notin> set (concat (map snd acc))"
    and da: "set (concat (map snd acc)) \<inter> fid ` set fs = {}"
    by (auto simp del: set_concat)
  show ?case
  proof (cases "key f")
    case None
    have e: "{g \<in> set (f # fs). key g \<noteq> None} = {g \<in> set fs. key g \<noteq> None}"
      using None by auto
    from Cons.IH[OF d Cons.prems(2) da] None show ?thesis
      unfolding e by (simp del: set_concat)
  next
    case (Some k)
    let ?acc = "bucket_append k (fid f) acc"
    have d2: "distinct (concat (map snd ?acc))"
      using Cons.prems(2) na by (rule bucket_append_distinct)
    have d3: "set (concat (map snd ?acc)) \<inter> fid ` set fs = {}"
      using da nf by (simp add: bucket_append_ids del: set_concat)
    have e: "{g \<in> set (f # fs). key g \<noteq> None} = insert f {g \<in> set fs. key g \<noteq> None}"
      using Some by auto
    from Cons.IH[OF d d2 d3] Some show ?thesis
      unfolding e by (simp add: bucket_append_ids del: set_concat)
  qed
qed

lemma hash_buckets_fold:
  "hash_buckets fs =
     fold (\<lambda>f a. case (if isNull (geometry f) then None else Some (hash_geometry (geometry f))) of
                    None \<Rightarrow> a | Some k \<Rightarrow> bucket_append k (fid f) a) fs []"
proof -
  have "(\<lambda>feature hash_groups.
             if isNull (geometry feature) then hash_groups
             else bucket_append (hash_geometry (geometry feature)) (fid feature) hash_groups) =
        (\<lambda>f a. case (if isNull (geometry f) then None else Some (hash_geometry (geometry f))) of
                    None \<Rightarrow> a | Some k \<Rightarrow> bucket_append k (fid f) a)"
    by (auto simp: fun_eq_iff)
  then show ?thesis unfolding hash_buckets_def by (rule arg_cong[where f = "\<lambda>h. fold h fs []"])
qed

lemma hash_buckets_distinct:
  assumes "distinct (map fid fs)"
  shows "distinct (concat (map snd (hash_buckets fs)))"
    and "set (concat (map snd (hash_buckets fs))) =
           fid ` {f \<in> set fs. \<not> isNull (geometry f)}"
  using bucket_fold[OF assms, of "[]"
          "\<lambda>f. if isNull (geometry f) then None else Some (hash_geometry (geometry f))"]
  by (auto simp: hash_buckets_fold)

lemma key_buckets_distinct:
  assumes "distinct (map fid fs)"
  shows "distinct (concat (map snd (key_buckets chk fs)))"
    and "set (concat (map snd (key_buckets chk fs))) =
           fid ` {f \<in> set fs. get_key chk f \<noteq> None}"
  using bucket_fold[OF assms, of "[]" "get_key chk"]
  by (auto simp: key_buckets_def)

text \<open>The groups made of the buckets with more than one id.\<close>

lemma bucket_groups:
  assumes "distinct (concat (map snd bs))"
      and "\<And>k fids. feature_ids (mk k fids) = set fids"
  shows "disjoint_groups (map (\<lambda>(k, fids). mk k fids) (filter (\<lambda>(k, fids). length fids > 1) bs))"
    and "\<forall>g \<in> set (map (\<lambda>(k, fids). mk k fids) (filter (\<lambda>(k, fids). length fids > 1) bs)).
           finite (feature_ids g) \<and> 2 \<le> card (feature_ids g) \<and>
           feature_ids g \<subseteq> set (concat (map snd bs))"
  using assms(1)
proof (induction bs)
  case Nil
  { case 1 show ?case by simp }
  { case 2 show ?case by simp }
next
  case (Cons b bs)
  obtain k fids where b: "b = (k, fids)" by (cases b)
  { case 1
    then have d: "distinct (concat (map snd bs))"
      and x: "\<forall>c \<in> set bs. set fids \<inter> set (snd c) = {}"
      using b by auto
    from Cons.IH(1)[OF d] x b show ?case
      by (fastforce simp: assms(2)) }
  { case 2
    then have df: "distinct fids" using b by simp
    have "length fids > 1 \<Longrightarrow> 2 \<le> card (set fids)"
      using df by (simp add: distinct_card)
    with 2 Cons.IH(2) b show ?case
      by (auto simp: assms(2)) }
qed

section \<open>The scan within a tolerance\<close>

text \<open>
  The candidates that the loop of one seed compares: those that are not the seed, not
  processed, in the cache and with a geometry.
\<close>

lemma check_candidates_step:
  assumes "elig = (\<lambda>cid. cid \<noteq> i \<and> cid \<notin> done \<and>
                      (case cache cid of None \<Rightarrow> False | Some c \<Rightarrow> \<not> isNull (geometry c)))"
      and "cmp = (\<lambda>cid. compare env chk geom (geometry (the (cache cid))) (Some tol))"
  shows "check_candidates env chk tol cache done i geom (cid # cids) (dups, sc) =
           (if elig cid
            then check_candidates env chk tol cache done i geom cids
                   (if fst (cmp cid) then dups @ [cid] else dups, Some (fst (snd (cmp cid))))
            else check_candidates env chk tol cache done i geom cids (dups, sc))"
  unfolding assms by (auto split: option.splits prod.splits)

lemma check_candidates_filter:
  assumes "elig = (\<lambda>cid. cid \<noteq> i \<and> cid \<notin> done \<and>
                      (case cache cid of None \<Rightarrow> False | Some c \<Rightarrow> \<not> isNull (geometry c)))"
      and "cmp = (\<lambda>cid. compare env chk geom (geometry (the (cache cid))) (Some tol))"
  shows "check_candidates env chk tol cache done i geom cids (dups, sc) =
           (dups @ filter (\<lambda>cid. fst (cmp cid)) (filter elig cids),
            if filter elig cids = [] then sc
            else Some (fst (snd (cmp (last (filter elig cids))))))"
proof (induction cids arbitrary: dups sc)
  case Nil
  show ?case by simp
next
  case (Cons cid cids)
  show ?case
    unfolding check_candidates_step[OF assms]
    by (simp add: Cons.IH)
qed

lemma check_candidates_result:
  "check_candidates env chk tol cache done i geom cids (dups, sc) =
     (dups @ filter (\<lambda>cid. fst (compare env chk geom (geometry (the (cache cid))) (Some tol)))
               (filter (\<lambda>cid. cid \<noteq> i \<and> cid \<notin> done \<and>
                               (case cache cid of None \<Rightarrow> False
                                | Some c \<Rightarrow> \<not> isNull (geometry c))) cids),
      if filter (\<lambda>cid. cid \<noteq> i \<and> cid \<notin> done \<and>
                        (case cache cid of None \<Rightarrow> False
                         | Some c \<Rightarrow> \<not> isNull (geometry c))) cids = [] then sc
      else Some (fst (snd (compare env chk geom
                  (geometry (the (cache (last (filter (\<lambda>cid. cid \<noteq> i \<and> cid \<notin> done \<and>
                        (case cache cid of None \<Rightarrow> False
                         | Some c \<Rightarrow> \<not> isNull (geometry c))) cids))))) (Some tol)))))"
  by (rule check_candidates_filter) (rule refl)+

lemma scan_feature_cases:
  "scan_feature env chk tol indexed cache f st =
     (if fid f \<in> processed st \<or> isNull (geometry f) then st
      else
        (let compared = compared_candidates env tol indexed cache (processed st) f;
             matched = filter (\<lambda>cid. fst (candidate_comparison env chk tol cache f cid)) compared;
             sc = (if compared = [] then score st
                   else Some (fst (snd (candidate_comparison env chk tol cache f (last compared)))))
         in if matched \<noteq> []
            then \<lparr>processed = processed st \<union> set (fid f # matched),
                  groups = groups st @ [tolerance_group tol (fid f # matched) sc],
                  score = sc\<rparr>
            else \<lparr>processed = insert (fid f) (processed st), groups = groups st, score = sc\<rparr>))"
  by (simp add: scan_feature_def check_candidates_result compared_candidates_def
        candidate_comparison_def Let_def)

lemma compared_candidates_elig:
  "cid \<in> set (compared_candidates env tol indexed cache done f) \<Longrightarrow>
   cid \<noteq> fid f \<and> cid \<notin> done \<and> (\<exists>c. cache cid = Some c \<and> \<not> isNull (geometry c))"
  by (auto simp: compared_candidates_def split: option.splits)

lemma disjoint_groups_snoc:
  "disjoint_groups (gs @ [g]) \<longleftrightarrow>
     disjoint_groups gs \<and> (\<forall>h \<in> set gs. feature_ids h \<inter> feature_ids g = {})"
  by (induction gs) auto

lemma card_seed_and_matches:
  assumes "matched \<noteq> []" and "i \<notin> set matched"
  shows "2 \<le> card (set (i # matched))"
proof -
  from assms obtain m where m: "m \<in> set matched" "m \<noteq> i"
    by (cases matched) auto
  then have "{i, m} \<subseteq> set (i # matched)" by auto
  then have "card {i, m} \<le> card (set (i # matched))"
    by (intro card_mono) auto
  with m show ?thesis by simp
qed

lemma scan_feature_invariant:
  assumes inv: "scan_invariant Q st"
      and seed: "\<not> isNull (geometry f) \<longrightarrow> Q (fid f)"
      and cached: "\<And>cid c. cache cid = Some c \<Longrightarrow> \<not> isNull (geometry c) \<Longrightarrow> Q cid"
  shows "scan_invariant Q (scan_feature env chk tol indexed cache f st)"
proof (cases "fid f \<in> processed st \<or> isNull (geometry f)")
  case True
  with inv show ?thesis by (simp add: scan_feature_cases)
next
  case False
  define compared where "compared = compared_candidates env tol indexed cache (processed st) f"
  define matched where
    "matched = filter (\<lambda>cid. fst (candidate_comparison env chk tol cache f cid)) compared"
  define sc where "sc = (if compared = [] then score st
     else Some (fst (snd (candidate_comparison env chk tol cache f (last compared)))))"
  have el: "\<And>cid. cid \<in> set matched \<Longrightarrow>
      cid \<noteq> fid f \<and> cid \<notin> processed st \<and> (\<exists>c. cache cid = Some c \<and> \<not> isNull (geometry c))"
    unfolding matched_def compared_def using compared_candidates_elig by fastforce
  show ?thesis
  proof (cases "matched = []")
    case True
    with False have "scan_feature env chk tol indexed cache f st =
        \<lparr>processed = insert (fid f) (processed st), groups = groups st, score = sc\<rparr>"
      by (simp add: scan_feature_cases Let_def compared_def matched_def sc_def)
    with inv show ?thesis by (auto simp: scan_invariant_def)
  next
    case ne: False
    let ?g = "tolerance_group tol (fid f # matched) sc"
    from False ne have st': "scan_feature env chk tol indexed cache f st =
        \<lparr>processed = processed st \<union> set (fid f # matched),
         groups = groups st @ [?g], score = sc\<rparr>"
      by (simp add: scan_feature_cases Let_def compared_def matched_def sc_def)
    have ids: "feature_ids ?g = set (fid f # matched)"
      by (simp add: tolerance_group_def)
    have notin: "fid f \<notin> set matched" using el by blast
    have c2: "2 \<le> card (feature_ids ?g)"
      unfolding ids using ne notin by (rule card_seed_and_matches)
    have q: "\<forall>i \<in> feature_ids ?g. Q i"
      unfolding ids using seed False el cached by auto
    have fresh: "feature_ids ?g \<inter> processed st = {}"
      unfolding ids using False el by auto
    have old: "\<forall>h \<in> set (groups st). feature_ids h \<inter> feature_ids ?g = {}"
      using inv fresh by (auto simp: scan_invariant_def)
    show ?thesis
      unfolding st' scan_invariant_def
      using inv c2 q old ids
      by (auto simp: scan_invariant_def disjoint_groups_snoc)
  qed
qed

lemma scan_features_invariant:
  assumes "scan_invariant Q st"
      and "\<And>f. f \<in> set fs \<Longrightarrow> \<not> isNull (geometry f) \<Longrightarrow> Q (fid f)"
      and "\<And>cid c. cache cid = Some c \<Longrightarrow> \<not> isNull (geometry c) \<Longrightarrow> Q cid"
  shows "scan_invariant Q (scan_features env chk tol indexed cache fs st)"
  using assms(1,2)
proof (induction fs arbitrary: st)
  case Nil
  then show ?case by (simp add: scan_features_def)
next
  case (Cons f fs)
  have "scan_invariant Q (scan_feature env chk tol indexed cache f st)"
    using Cons.prems(1) assms(3) Cons.prems(2)[of f]
    by (intro scan_feature_invariant) auto
  from Cons.IH[OF this] Cons.prems(2) show ?case
    by (simp add: scan_features_def)
qed

lemma detect_by_tolerance_invariant:
  assumes "\<And>f. f \<in> set fs \<Longrightarrow> \<not> isNull (geometry f) \<Longrightarrow> Q (fid f)"
      and "\<And>cid c. cache cid = Some c \<Longrightarrow> \<not> isNull (geometry c) \<Longrightarrow> Q cid"
  shows "disjoint_groups (detect_by_tolerance env chk tol indexed cache fs)"
    and "\<forall>g \<in> set (detect_by_tolerance env chk tol indexed cache fs).
           finite (feature_ids g) \<and> 2 \<le> card (feature_ids g) \<and> (\<forall>i \<in> feature_ids g. Q i)"
proof -
  have "scan_invariant Q \<lparr>processed = {}, groups = [], score = None\<rparr>"
    by (simp add: scan_invariant_def)
  from scan_features_invariant[OF this assms, where env = env and chk = chk and tol = tol and indexed = indexed]
  show "disjoint_groups (detect_by_tolerance env chk tol indexed cache fs)"
    and "\<forall>g \<in> set (detect_by_tolerance env chk tol indexed cache fs).
           finite (feature_ids g) \<and> 2 \<le> card (feature_ids g) \<and> (\<forall>i \<in> feature_ids g. Q i)"
    by (auto simp: detect_by_tolerance_def scan_invariant_def)
qed

lemma build_feature_cache_Some:
  "fold (\<lambda>feature cache. cache(fid feature \<mapsto> feature)) fs m cid = Some c \<Longrightarrow>
   (c \<in> set fs \<and> fid c = cid) \<or> m cid = Some c"
  by (induction fs arbitrary: m) (fastforce split: if_splits)+

lemma feature_cache_member:
  "build_feature_cache fs cid = Some c \<Longrightarrow> c \<in> set fs \<and> fid c = cid"
  using build_feature_cache_Some[of fs Map.empty cid c]
  by (simp add: build_feature_cache_def)

text \<open>
  Claim C3. One step of the scan, on the seed \<open>f\<close> in the state \<open>st\<close>, either leaves the
  list of groups as it is or appends one group. That group has the seed and the matched
  candidates as members; a comparison has run for it, and its confidence is the value of
  the variable \<open>score\<close>, the score of the latest comparison, which is the comparison with
  the last candidate compared for this seed, matched or not (0.9 stands in the source for
  a variable that is still unbound); its reason holds the tolerance; its members are all
  processed. A processed feature is skipped, so no member is a seed again, and at the end
  of the scan the members of all groups are processed and no id is in two groups.
\<close>

theorem tolerance_group_created:
  "(let st' = scan_feature env chk tol indexed cache f st;
        compared = compared_candidates env tol indexed cache (processed st) f
    in (groups st' = groups st \<or>
        (\<exists>g. groups st' = groups st @ [g] \<and>
              compared \<noteq> [] \<and>
              score st' = Some (fst (snd (candidate_comparison env chk tol cache f (last compared)))) \<and>
              confidence_score g = (case score st' of Some s \<Rightarrow> s | None \<Rightarrow> 9 / 10) \<and>
              confidence_score g =
                fst (snd (candidate_comparison env chk tol cache f (last compared))) \<and>
              match_reason g = Fmt ''Within '' tol '' tolerance'' \<and>
              feature_ids g =
                insert (fid f)
                  {cid \<in> set compared. fst (candidate_comparison env chk tol cache f cid)} \<and>
              feature_ids g \<subseteq> processed st')) \<and>
       processed st \<subseteq> processed st') \<and>
   (\<forall>f'. fid f' \<in> processed st \<longrightarrow> scan_feature env chk tol indexed cache f' st = st) \<and>
   (let final = scan_features env chk tol indexed cache fs
                  \<lparr>processed = {}, groups = [], score = None\<rparr>
    in (\<forall>g \<in> set (groups final). feature_ids g \<subseteq> processed final) \<and>
       disjoint_groups (groups final))"
proof (intro conjI)
  define compared where "compared = compared_candidates env tol indexed cache (processed st) f"
  define matched where
    "matched = filter (\<lambda>cid. fst (candidate_comparison env chk tol cache f cid)) compared"
  define sc where "sc = (if compared = [] then score st
     else Some (fst (snd (candidate_comparison env chk tol cache f (last compared)))))"
  have step: "let st' = scan_feature env chk tol indexed cache f st
    in (groups st' = groups st \<or>
        (\<exists>g. groups st' = groups st @ [g] \<and>
              compared \<noteq> [] \<and>
              score st' = Some (fst (snd (candidate_comparison env chk tol cache f (last compared)))) \<and>
              confidence_score g = (case score st' of Some s \<Rightarrow> s | None \<Rightarrow> 9 / 10) \<and>
              confidence_score g =
                fst (snd (candidate_comparison env chk tol cache f (last compared))) \<and>
              match_reason g = Fmt ''Within '' tol '' tolerance'' \<and>
              feature_ids g =
                insert (fid f)
                  {cid \<in> set compared. fst (candidate_comparison env chk tol cache f cid)} \<and>
              feature_ids g \<subseteq> processed st')) \<and>
       processed st \<subseteq> processed st'"
  proof (cases "fid f \<in> processed st \<or> isNull (geometry f)")
    case True
    then show ?thesis by (simp add: scan_feature_cases)
  next
    case False
    show ?thesis
    proof (cases "matched = []")
      case True
      with False have "scan_feature env chk tol indexed cache f st =
          \<lparr>processed = insert (fid f) (processed st), groups = groups st, score = sc\<rparr>"
        by (simp add: scan_feature_cases Let_def compared_def matched_def sc_def)
      then show ?thesis by auto
    next
      case ne: False
      then have cne: "compared \<noteq> []" by (auto simp: matched_def)
      let ?g = "tolerance_group tol (fid f # matched) sc"
      from False ne have st': "scan_feature env chk tol indexed cache f st =
          \<lparr>processed = processed st \<union> set (fid f # matched),
           groups = groups st @ [?g], score = sc\<rparr>"
        by (simp add: scan_feature_cases Let_def compared_def matched_def sc_def)
      have sc: "sc = Some (fst (snd (candidate_comparison env chk tol cache f (last compared))))"
        using cne by (simp add: sc_def)
      have ids: "feature_ids ?g = insert (fid f)
          {cid \<in> set compared. fst (candidate_comparison env chk tol cache f cid)}"
        by (auto simp: tolerance_group_def matched_def)
      have "groups (scan_feature env chk tol indexed cache f st) = groups st @ [?g] \<and>
          compared \<noteq> [] \<and>
          score (scan_feature env chk tol indexed cache f st) =
            Some (fst (snd (candidate_comparison env chk tol cache f (last compared)))) \<and>
          confidence_score ?g =
            (case score (scan_feature env chk tol indexed cache f st) of
               Some s \<Rightarrow> s | None \<Rightarrow> 9 / 10) \<and>
          confidence_score ?g =
            fst (snd (candidate_comparison env chk tol cache f (last compared))) \<and>
          match_reason ?g = Fmt ''Within '' tol '' tolerance'' \<and>
          feature_ids ?g = insert (fid f)
            {cid \<in> set compared. fst (candidate_comparison env chk tol cache f cid)} \<and>
          feature_ids ?g \<subseteq> processed (scan_feature env chk tol indexed cache f st)"
        unfolding st' using cne sc ids
        by (auto simp: tolerance_group_def matched_def)
      moreover have "processed st \<subseteq> processed (scan_feature env chk tol indexed cache f st)"
        unfolding st' by auto
      ultimately show ?thesis unfolding Let_def by blast
    qed
  qed
  then show "let st' = scan_feature env chk tol indexed cache f st;
        compared = compared_candidates env tol indexed cache (processed st) f
    in (groups st' = groups st \<or>
        (\<exists>g. groups st' = groups st @ [g] \<and>
              compared \<noteq> [] \<and>
              score st' = Some (fst (snd (candidate_comparison env chk tol cache f (last compared)))) \<and>
              confidence_score g = (case score st' of Some s \<Rightarrow> s | None \<Rightarrow> 9 / 10) \<and>
              confidence_score g =
                fst (snd (candidate_comparison env chk tol cache f (last compared))) \<and>
              match_reason g = Fmt ''Within '' tol '' tolerance'' \<and>
              feature_ids g =
                insert (fid f)
                  {cid \<in> set compared. fst (candidate_comparison env chk tol cache f cid)} \<and>
              feature_ids g \<subseteq> processed st')) \<and>
       processed st \<subseteq> processed st'"
    unfolding compared_def Let_def .
next
  show "\<forall>f'. fid f' \<in> processed st \<longrightarrow> scan_feature env chk tol indexed cache f' st = st"
    by (simp add: scan_feature_def)
next
  have "scan_invariant (\<lambda>i. True) \<lparr>processed = {}, groups = [], score = None\<rparr>"
    by (simp add: scan_invariant_def)
  then have "scan_invariant (\<lambda>i. True)
      (scan_features env chk tol indexed cache fs \<lparr>processed = {}, groups = [], score = None\<rparr>)"
    by (rule scan_features_invariant) simp_all
  then show "let final = scan_features env chk tol indexed cache fs
                  \<lparr>processed = {}, groups = [], score = None\<rparr>
    in (\<forall>g \<in> set (groups final). feature_ids g \<subseteq> processed final) \<and>
       disjoint_groups (groups final)"
    by (simp add: scan_invariant_def Let_def)
qed

lemma point_feature_fields:
  "fid (point_feature i g) = i" "geometry (point_feature i g) = g"
  "attributes (point_feature i g) = []"
  by (simp_all add: point_feature_def)

lemma point_geometry_not_null: "\<not> isNull (point_geometry h x y)"
  by (simp add: point_geometry_def)

lemma cache_three_points:
  "build_feature_cache three_points =
     [1 \<mapsto> point_feature 1 (point_geometry digest_a 0 0),
      2 \<mapsto> point_feature 2 (point_geometry digest_b 0 (1 / 2)),
      3 \<mapsto> point_feature 3 (point_geometry digest_c (9 / 10) (9 / 10))]"
  by (simp add: build_feature_cache_def three_points_def point_feature_def)

lemma compared_three_points:
  "compared_candidates example_env 1 three_points (build_feature_cache three_points) {}
     (point_feature 1 (point_geometry digest_a 0 0)) = [2, 3]"
  unfolding cache_three_points
  by (simp add: compared_candidates_def example_env_def three_points_def point_feature_def
        point_geometry_def rect_grow_def rect_intersects_def)

lemma compare_near_point:
  "candidate_comparison example_env centroid_checker 1 (build_feature_cache three_points)
     (point_feature 1 (point_geometry digest_a 0 0)) 2 =
   (True, 1 / 2, Fmt ''Centroid distance: '' (1 / 2) '''')"
  unfolding cache_three_points
  by (simp add: candidate_comparison_def compare_def compare_single_def centroid_checker_def
        compare_centroid_def point_geometry_def point_feature_def real_sqrt_divide Let_def)

lemma compare_far_point:
  "candidate_comparison example_env centroid_checker 1 (build_feature_cache three_points)
     (point_feature 1 (point_geometry digest_a 0 0)) 3 =
   (False, 0, Fmt ''Centroid distance '' (sqrt (81 / 50)) '' exceeds tolerance'')"
  unfolding cache_three_points
  by (simp add: candidate_comparison_def compare_def compare_single_def centroid_checker_def
        compare_centroid_def point_geometry_def point_feature_def power2_eq_square Let_def)

text \<open>
  The seed 1 is compared with the candidate 2, a match with score 0.5, and then with the
  candidate 3, no match and score 0: the group of 1 and 2 has the confidence 0.
\<close>

lemma first_seed_three_points:
  "scan_feature example_env centroid_checker 1 three_points (build_feature_cache three_points)
     (point_feature 1 (point_geometry digest_a 0 0))
     \<lparr>processed = {}, groups = [], score = None\<rparr> =
   \<lparr>processed = {1, 2},
    groups = [\<lparr>feature_ids = {1, 2}, detection_type = ''geometry'', confidence_score = 0,
               match_reason = Fmt ''Within '' 1 '' tolerance'', suggested_keep = None,
               metadata = []\<rparr>],
    score = Some 0\<rparr>"
  by (simp add: scan_feature_cases compared_three_points compare_near_point compare_far_point
        Let_def tolerance_group_def point_feature_fields point_geometry_not_null)

theorem tolerance_group_created_witness:
  "scan_feature example_env centroid_checker 1 three_points (build_feature_cache three_points)
     (point_feature 1 (point_geometry digest_a 0 0))
     \<lparr>processed = {}, groups = [], score = None\<rparr> =
   \<lparr>processed = {1, 2},
    groups = [\<lparr>feature_ids = {1, 2}, detection_type = ''geometry'', confidence_score = 0,
               match_reason = Fmt ''Within '' 1 '' tolerance'', suggested_keep = None,
               metadata = []\<rparr>],
    score = Some 0\<rparr> \<and>
   compared_candidates example_env 1 three_points (build_feature_cache three_points) {}
     (point_feature 1 (point_geometry digest_a 0 0)) = [2, 3] \<and>
   fst (snd (candidate_comparison example_env centroid_checker 1
               (build_feature_cache three_points)
               (point_feature 1 (point_geometry digest_a 0 0)) 3)) = 0 \<and>
   scan_feature example_env centroid_checker 1 three_points (build_feature_cache three_points)
     (point_feature 2 (point_geometry digest_b 0 (1 / 2)))
     \<lparr>processed = {1, 2},
      groups = [\<lparr>feature_ids = {1, 2}, detection_type = ''geometry'', confidence_score = 0,
                 match_reason = Fmt ''Within '' 1 '' tolerance'', suggested_keep = None,
                 metadata = []\<rparr>],
      score = Some 0\<rparr> =
   \<lparr>processed = {1, 2},
    groups = [\<lparr>feature_ids = {1, 2}, detection_type = ''geometry'', confidence_score = 0,
               match_reason = Fmt ''Within '' 1 '' tolerance'', suggested_keep = None,
               metadata = []\<rparr>],
    score = Some 0\<rparr>"
  using tolerance_group_created[where env = example_env and chk = centroid_checker and tol = 1
          and indexed = three_points and cache = "build_feature_cache three_points"
          and f = "point_feature 1 (point_geometry digest_a 0 0)"
          and st = "\<lparr>processed = {1, 2},
      groups = [\<lparr>feature_ids = {1, 2}, detection_type = ''geometry'', confidence_score = 0,
                 match_reason = Fmt ''Within '' 1 '' tolerance'', suggested_keep = None,
                 metadata = []\<rparr>],
      score = Some 0\<rparr>" and fs = three_points]
        first_seed_three_points compared_three_points compare_far_point
  by (simp add: point_feature_fields)

section \<open>The groups of the detection passes\<close>

lemma distinct_fid_eq:
  "distinct (map fid fs) \<Longrightarrow> f \<in> set fs \<Longrightarrow> f' \<in> set fs \<Longrightarrow> fid f = fid f' \<Longrightarrow> f = f'"
  by (meson distinct_map inj_on_def)

lemma detect_by_hash_groups:
  assumes "distinct (map fid fs)"
  shows "disjoint_groups (detect_by_hash fs)"
    and "\<forall>g \<in> set (detect_by_hash fs).
           finite (feature_ids g) \<and> 2 \<le> card (feature_ids g) \<and>
           feature_ids g \<subseteq> fid ` {f \<in> set fs. \<not> isNull (geometry f)}"
proof -
  have ids: "\<And>(k :: string) fids. feature_ids (hash_group fids) = set fids"
    by (simp add: hash_group_def)
  note d = hash_buckets_distinct(1)[OF assms]
  from bucket_groups(1)[where mk = "\<lambda>k fids. hash_group fids", OF d ids]
  show "disjoint_groups (detect_by_hash fs)"
    unfolding detect_by_hash_def .
  from bucket_groups(2)[where mk = "\<lambda>k fids. hash_group fids", OF d ids]
  show "\<forall>g \<in> set (detect_by_hash fs).
           finite (feature_ids g) \<and> 2 \<le> card (feature_ids g) \<and>
           feature_ids g \<subseteq> fid ` {f \<in> set fs. \<not> isNull (geometry f)}"
    unfolding detect_by_hash_def hash_buckets_distinct(2)[OF assms] .
qed

lemma detect_attribute_groups:
  assumes "distinct (map fid fs)"
      and "detect_attribute_duplicates self fs = Inr gs"
  shows "disjoint_groups gs"
    and "\<forall>g \<in> set gs. finite (feature_ids g) \<and> 2 \<le> card (feature_ids g) \<and>
                        feature_ids g \<subseteq> fid ` set fs"
proof -
  let ?chk = "\<lparr>ac_fields = self_fields self, ac_normalize = self_normalize_attributes self,
               ac_ignore_null = self_ignore_null self, ac_case_sensitive = False,
               ac_fuzzy_threshold = 0\<rparr>"
  from assms(2) have gs: "gs = map (\<lambda>(key, fids). attribute_group (self_fields self) key fids)
       (filter (\<lambda>(key, fids). length fids > 1) (key_buckets ?chk fs))"
    by (auto simp: detect_attribute_duplicates_def Let_def split: if_splits)
  have ids: "\<And>k fids. feature_ids (attribute_group (self_fields self) k fids) = set fids"
    by (simp add: attribute_group_def)
  note d = key_buckets_distinct(1)[OF assms(1), of ?chk]
  from bucket_groups(1)[where mk = "attribute_group (self_fields self)", OF d ids]
  show "disjoint_groups gs" unfolding gs .
  from bucket_groups(2)[where mk = "attribute_group (self_fields self)", OF d ids]
  have "\<forall>g \<in> set gs. finite (feature_ids g) \<and> 2 \<le> card (feature_ids g) \<and>
      feature_ids g \<subseteq> fid ` {f \<in> set fs. get_key ?chk f \<noteq> None}"
    unfolding gs key_buckets_distinct(2)[OF assms(1)] .
  then show "\<forall>g \<in> set gs. finite (feature_ids g) \<and> 2 \<le> card (feature_ids g) \<and>
                        feature_ids g \<subseteq> fid ` set fs"
    by blast
qed

text \<open>
  Claim C10. In a list of features with distinct ids, a feature with a null geometry is
  in no group of the exact-hash pass and in no group of the tolerance pass, whatever the
  index answers, and so in no group of the geometry detection; the hash of its geometry
  is the sentinel \<open>NULL\<close> all the same.
\<close>

theorem null_geometry_never_grouped:
  assumes "distinct (map fid fs)" and "f \<in> set fs" and "isNull (geometry f)"
  shows "(\<forall>g \<in> set (detect_by_hash fs). fid f \<notin> feature_ids g) \<and>
         (\<forall>g \<in> set (detect_by_tolerance env chk tol indexed (build_feature_cache fs) fs).
            fid f \<notin> feature_ids g) \<and>
         (\<forall>g \<in> set (detect_geometry_duplicates env self fs). fid f \<notin> feature_ids g) \<and>
         hash_geometry (geometry f) = ''NULL''"
proof -
  have only: "\<And>f'. f' \<in> set fs \<Longrightarrow> \<not> isNull (geometry f') \<Longrightarrow> fid f' \<noteq> fid f"
    using assms distinct_fid_eq by blast
  have h: "\<forall>g \<in> set (detect_by_hash fs). fid f \<notin> feature_ids g"
  proof
    fix g assume g: "g \<in> set (detect_by_hash fs)"
    with detect_by_hash_groups(2)[OF assms(1)]
    have "feature_ids g \<subseteq> fid ` {f \<in> set fs. \<not> isNull (geometry f)}" by blast
    with only show "fid f \<notin> feature_ids g" by fastforce
  qed
  have t: "\<forall>g \<in> set (detect_by_tolerance env' chk' tol' indexed' (build_feature_cache fs) fs).
            fid f \<notin> feature_ids g" for env' chk' tol' indexed'
  proof -
    have "\<forall>g \<in> set (detect_by_tolerance env' chk' tol' indexed' (build_feature_cache fs) fs).
        finite (feature_ids g) \<and> 2 \<le> card (feature_ids g) \<and>
        (\<forall>i \<in> feature_ids g. \<exists>c \<in> set fs. fid c = i \<and> \<not> isNull (geometry c))"
      by (rule detect_by_tolerance_invariant(2)) (use feature_cache_member in blast)+
    with only show ?thesis by fastforce
  qed
  have g: "\<forall>g \<in> set (detect_geometry_duplicates env self fs). fid f \<notin> feature_ids g"
    using h t by (simp add: detect_geometry_duplicates_def Let_def)
  have "hash_geometry (geometry f) = ''NULL''"
    using assms(3) by (simp add: hash_geometry_def)
  with h t g show ?thesis by blast
qed

lemma merge_with_card:
  "finite (feature_ids a) \<and> 2 \<le> card (feature_ids a) \<Longrightarrow>
   finite (feature_ids b) \<and> 2 \<le> card (feature_ids b) \<Longrightarrow>
   finite (feature_ids (merge_with a b)) \<and> 2 \<le> card (feature_ids (merge_with a b))"
proof -
  assume a: "finite (feature_ids a) \<and> 2 \<le> card (feature_ids a)"
    and b: "finite (feature_ids b) \<and> 2 \<le> card (feature_ids b)"
  then have "card (feature_ids a) \<le> card (feature_ids a \<union> feature_ids b)"
    by (intro card_mono) auto
  with a b show ?thesis by (simp add: merge_with_def)
qed

lemma consolidate_step_all:
  assumes "\<forall>h \<in> set cons. P h" and "P g"
      and "\<And>a b. P a \<Longrightarrow> P b \<Longrightarrow> P (merge_with a b)"
  shows "\<forall>h \<in> set (snd (consolidate_step env g (m, cons))). P h"
proof (cases "first_owner m (set_order env (feature_ids g))")
  case None
  with assms show ?thesis by (simp add: consolidate_step_def Let_def)
next
  case (Some k)
  show ?thesis
  proof (cases "k < length cons")
    case True
    then have "P (merge_with (cons ! k) g)" using assms by simp
    moreover have "set (cons[k := merge_with (cons ! k) g]) \<subseteq>
        insert (merge_with (cons ! k) g) (set cons)"
      by (rule set_update_subset_insert)
    ultimately show ?thesis
      using Some assms(1) by (auto simp: consolidate_step_def Let_def)
  next
    case False
    with Some assms(1) show ?thesis
      by (simp add: consolidate_step_def Let_def list_update_beyond)
  qed
qed

lemma consolidate_fold_all:
  assumes "\<forall>g \<in> set gs. P g" and "\<forall>h \<in> set cons. P h"
      and "\<And>a b. P a \<Longrightarrow> P b \<Longrightarrow> P (merge_with a b)"
  shows "\<forall>h \<in> set (snd (fold (consolidate_step env) gs (m, cons))). P h"
  using assms(1,2)
proof (induction gs arbitrary: m cons)
  case Nil
  then show ?case by simp
next
  case (Cons g gs)
  obtain m' cons' where st: "consolidate_step env g (m, cons) = (m', cons')"
    by (cases "consolidate_step env g (m, cons)")
  have "\<forall>h \<in> set cons'. P h"
    using consolidate_step_all[OF Cons.prems(2) _ assms(3), of g env m] Cons.prems(1) st
    by simp
  from Cons.IH[OF _ this, of m'] Cons.prems(1) st show ?case by simp
qed

lemma consolidate_groups_all:
  assumes "\<forall>g \<in> set gs. P g"
      and "\<And>a b. P a \<Longrightarrow> P b \<Longrightarrow> P (merge_with a b)"
  shows "\<forall>h \<in> set (consolidate_groups env gs). P h"
  using consolidate_fold_all[OF assms(1) _ assms(2), of "[]" env Map.empty]
  by (simp add: consolidate_groups_def)


lemma resolve_all_ids:
  "(\<forall>g \<in> set (resolve env l rules gs). P (feature_ids g)) \<longleftrightarrow> (\<forall>g \<in> set gs. P (feature_ids g))"
  by (auto simp: resolve_def)

text \<open>The features that \<open>detect\<close> works on, and the groups of its detection pass.\<close>

lemma detect_Inr:
  assumes "detect env self = Inr result"
  obtains l fs gs where "self_layer self = Some l" and "isValid l"
    and "fs = getFeatures l \<or>
         (\<exists>ids. fs = filter (\<lambda>f. fid f \<in> set ids) (getFeatures l))"
    and "(self_detection_type self = ''geometry'' \<and> gs = detect_geometry_duplicates env self fs) \<or>
         (self_detection_type self \<noteq> ''geometry'' \<and> detect_attribute_duplicates self fs = Inr gs)"
    and "result = consolidate_groups env
           (case self_priority_rules self of None \<Rightarrow> gs | Some rules \<Rightarrow> resolve env l rules gs)"
  using assms
  by (auto simp: detect_def sample_features_def Let_def split: option.splits if_splits sum.splits)

lemma hash_two_equal_one_null:
  "detect_by_hash two_equal_one_null = [hash_group [1, 2]]"
  by (simp add: detect_by_hash_def hash_buckets_def two_equal_one_null_def point_feature_fields
        point_geometry_not_null hash_geometry_def)

lemma cache_two_equal_one_null:
  "build_feature_cache two_equal_one_null =
     [1 \<mapsto> point_feature 1 (point_geometry digest_a 0 0),
      2 \<mapsto> point_feature 2 (point_geometry digest_a 0 0),
      3 \<mapsto> point_feature 3 NullGeometry]"
  by (simp add: build_feature_cache_def two_equal_one_null_def point_feature_fields)

lemma compare_same_point:
  "compare example_env centroid_checker (point_geometry digest_a 0 0)
     (point_geometry digest_a 0 0) (Some 1) =
   (True, 1, Fmt ''Centroid distance: '' 0 '''')"
  by (simp add: compare_def compare_single_def centroid_checker_def compare_centroid_def
        point_geometry_def Let_def)

lemma index_two_equal_one_null:
  "spatial_intersects example_env two_equal_one_null
     (rect_grow (boundingBox (point_geometry digest_a 0 0)) 1) = [1, 2]"
  by (simp add: example_env_def two_equal_one_null_def point_feature_fields
        point_geometry_def rect_grow_def rect_intersects_def)

lemma tolerance_two_equal_one_null:
  "detect_by_tolerance example_env centroid_checker 1 two_equal_one_null
     (build_feature_cache two_equal_one_null) two_equal_one_null =
   [tolerance_group 1 [1, 2] (Some 1)]"
  unfolding cache_two_equal_one_null detect_by_tolerance_def scan_features_def
  by (simp add: two_equal_one_null_def scan_feature_def point_feature_fields
        point_geometry_not_null index_two_equal_one_null[unfolded two_equal_one_null_def]
        compare_same_point)

theorem null_geometry_never_grouped_witness:
  "distinct (map fid two_equal_one_null) \<and>
   point_feature 3 NullGeometry \<in> set two_equal_one_null \<and>
   isNull (geometry (point_feature 3 NullGeometry)) \<and>
   map feature_ids (detect_by_hash two_equal_one_null) = [{1, 2}] \<and>
   map feature_ids (detect_by_tolerance example_env centroid_checker 1 two_equal_one_null
     (build_feature_cache two_equal_one_null) two_equal_one_null) = [{1, 2}] \<and>
   hash_geometry (geometry (point_feature 3 NullGeometry)) = ''NULL''"
proof -
  have d: "distinct (map fid two_equal_one_null)"
    by (simp add: two_equal_one_null_def point_feature_fields)
  have m: "point_feature 3 NullGeometry \<in> set two_equal_one_null"
    by (simp add: two_equal_one_null_def)
  have n: "isNull (geometry (point_feature 3 NullGeometry))"
    by (simp add: point_feature_fields)
  from null_geometry_never_grouped[OF d m n, of example_env centroid_checker 1
         two_equal_one_null "default_detector None"]
  show ?thesis
    using d m n
    by (simp add: hash_two_equal_one_null tolerance_two_equal_one_null hash_group_def
          tolerance_group_def insert_commute)
qed

section \<open>Properties of the comparison keys\<close>

lemma get_key_loop_result:
  "get_key_loop chk f names vals =
     (if ac_ignore_null chk \<and>
         (\<exists>n \<in> set names. feature_get f n = None \<or> feature_get f n = Some VNull)
      then None
      else Some (vals @ map (\<lambda>n. case feature_get f n of
                                     None \<Rightarrow> VNull
                                   | Some v \<Rightarrow> if ac_normalize chk \<and> v \<noteq> VNull
                                               then normalize_value chk v else v) names))"
  by (induction names arbitrary: vals) (auto simp: Let_def split: option.splits)

text \<open>
  Claim C6. \<open>get_key\<close> returns no key exactly when \<open>ignore_null\<close> is enabled and the value
  of a configured field is null or the field is missing; otherwise it returns the tuple of
  the values in the order of the fields, each normalised when normalisation is on, a null
  staying null. A feature with no key is in no bucket of the attribute grouping, among
  features with distinct ids. In \<open>compare\<close> a pair where either feature has no key does
  not match, also when both have none, and two features with the same key match with
  score 1.
\<close>

theorem get_key_and_compare:
  "(get_key chk f = None \<longleftrightarrow>
      ac_ignore_null chk \<and>
      (\<exists>n \<in> set (ac_fields chk). feature_get f n = None \<or> feature_get f n = Some VNull)) \<and>
   (get_key chk f \<noteq> None \<longrightarrow>
      get_key chk f =
        Some (map (\<lambda>n. case feature_get f n of
                         None \<Rightarrow> VNull
                       | Some v \<Rightarrow> if ac_normalize chk \<and> v \<noteq> VNull
                                   then normalize_value chk v else v) (ac_fields chk))) \<and>
   (\<forall>fs. get_key chk f = None \<and> distinct (map fid fs) \<and> f \<in> set fs \<longrightarrow>
      fid f \<notin> set (concat (map snd (key_buckets chk fs)))) \<and>
   (get_key chk f1 = None \<or> get_key chk f2 = None \<longrightarrow>
      attribute_compare chk f1 f2 =
        (False, 0, Text ''One or both features have NULL key values'')) \<and>
   (\<forall>key. get_key chk f1 = Some key \<and> get_key chk f2 = Some key \<longrightarrow>
      attribute_compare chk f1 f2 =
        (True, 1, Text (''Exact match on fields: '' @ str_join '', '' (ac_fields chk))))"
proof (intro conjI)
  show "\<forall>fs. get_key chk f = None \<and> distinct (map fid fs) \<and> f \<in> set fs \<longrightarrow>
      fid f \<notin> set (concat (map snd (key_buckets chk fs)))"
  proof (intro allI impI notI)
    fix fs
    assume a: "get_key chk f = None \<and> distinct (map fid fs) \<and> f \<in> set fs"
      and m: "fid f \<in> set (concat (map snd (key_buckets chk fs)))"
    from a have d: "distinct (map fid fs)" by simp
    from m obtain f' where f': "f' \<in> set fs" "get_key chk f' \<noteq> None" "fid f' = fid f"
      unfolding key_buckets_distinct(2)[OF d] by auto
    with a d have "f' = f" using distinct_fid_eq by blast
    with f' a show False by simp
  qed
  show "get_key chk f = None \<longleftrightarrow>
      ac_ignore_null chk \<and>
      (\<exists>n \<in> set (ac_fields chk). feature_get f n = None \<or> feature_get f n = Some VNull)"
    by (simp add: get_key_def get_key_loop_result)
  show "get_key chk f \<noteq> None \<longrightarrow>
      get_key chk f =
        Some (map (\<lambda>n. case feature_get f n of
                         None \<Rightarrow> VNull
                       | Some v \<Rightarrow> if ac_normalize chk \<and> v \<noteq> VNull
                                   then normalize_value chk v else v) (ac_fields chk))"
    by (simp add: get_key_def get_key_loop_result)
  show "get_key chk f1 = None \<or> get_key chk f2 = None \<longrightarrow>
      attribute_compare chk f1 f2 =
        (False, 0, Text ''One or both features have NULL key values'')"
    by (auto simp: attribute_compare_def split: option.splits)
  show "\<forall>key. get_key chk f1 = Some key \<and> get_key chk f2 = Some key \<longrightarrow>
      attribute_compare chk f1 f2 =
        (True, 1, Text (''Exact match on fields: '' @ str_join '', '' (ac_fields chk)))"
    by (simp add: attribute_compare_def)
qed

theorem get_key_and_compare_witness:
  "get_key (name_checker True) (named_feature 1 [(''name'', VStr ''Paris'')]) = None \<and>
   get_key (name_checker False) (named_feature 1 [(''name'', VStr '' paris '')]) =
     Some [VStr ''paris'', VNull] \<and>
   1 \<notin> set (concat (map snd (key_buckets (name_checker True)
                                    [named_feature 1 [(''name'', VStr ''Paris'')]]))) \<and>
   attribute_compare (name_checker True) (named_feature 1 [(''name'', VStr ''Paris'')])
       (named_feature 2 [(''name'', VStr ''Paris'')]) =
     (False, 0, Text ''One or both features have NULL key values'') \<and>
   attribute_compare (name_checker False) (named_feature 1 [(''name'', VStr '' paris '')])
       (named_feature 2 [(''name'', VStr ''PARIS''), (''code'', VNull)]) =
     (True, 1, Text ''Exact match on fields: name, code'')"
proof -
  let ?a = "named_feature 1 [(''name'', VStr ''Paris'')]"
  let ?b = "named_feature 2 [(''name'', VStr ''Paris'')]"
  let ?c = "named_feature 1 [(''name'', VStr '' paris '')]"
  let ?d = "named_feature 2 [(''name'', VStr ''PARIS''), (''code'', VNull)]"
  have k1: "get_key (name_checker False) ?c = Some [VStr ''paris'', VNull]"
    by code_simp
  have k2: "get_key (name_checker False) ?d = Some [VStr ''paris'', VNull]"
    by code_simp
  have n: "ac_ignore_null (name_checker True) \<and>
      (\<exists>n \<in> set (ac_fields (name_checker True)).
          feature_get ?a n = None \<or> feature_get ?a n = Some VNull)"
    by (simp add: feature_get_def named_feature_def name_checker_def)
  have j: "str_join '', '' (ac_fields (name_checker False)) = ''name, code''"
    by (simp add: name_checker_def)
  note t1 = get_key_and_compare[of "name_checker True" ?a ?a ?b]
  note t2 = get_key_and_compare[of "name_checker False" ?c ?c ?d]
  from t1 n have g: "get_key (name_checker True) ?a = None" by blast
  from t1 have "\<forall>fs. get_key (name_checker True) ?a = None \<and> distinct (map fid fs) \<and>
      ?a \<in> set fs \<longrightarrow>
      fid ?a \<notin> set (concat (map snd (key_buckets (name_checker True) fs)))"
    by blast
  from this[rule_format, of "[?a]"] g
  have "fid ?a \<notin> set (concat (map snd (key_buckets (name_checker True) [?a])))"
    by simp
  then have b: "1 \<notin> set (concat (map snd (key_buckets (name_checker True) [?a])))"
    by (simp add: named_feature_def)
  from t1 g have c1: "attribute_compare (name_checker True) ?a ?b =
      (False, 0, Text ''One or both features have NULL key values'')"
    by blast
  from t2 k1 k2 j have c2: "attribute_compare (name_checker False) ?c ?d =
      (True, 1, Text ''Exact match on fields: name, code'')"
    by simp
  from g k1 b c1 c2 show ?thesis by blast
qed

section \<open>Consolidation of disjoint groups and the id fallback\<close>

lemma assign_owner_apply:
  "assign_owner k fids m i = (if i \<in> set fids then Some k else m i)"
  unfolding assign_owner_def by (induction fids arbitrary: m) auto

lemma first_owner_None:
  "first_owner m fids = None \<longleftrightarrow> (\<forall>i \<in> set fids. m i = None)"
  by (induction fids) (auto split: option.splits)

lemma consolidate_fold_disjoint:
  assumes "\<forall>S. finite S \<longrightarrow> set (set_order env S) = S"
  shows "disjoint_groups gs \<Longrightarrow> \<forall>g \<in> set gs. finite (feature_ids g) \<Longrightarrow>
         \<forall>g \<in> set gs. dom m \<inter> feature_ids g = {} \<Longrightarrow>
         snd (fold (consolidate_step env) gs (m, cons)) = cons @ gs"
proof (induction gs arbitrary: m cons)
  case Nil
  show ?case by simp
next
  case (Cons g gs)
  have order: "set (set_order env (feature_ids g)) = feature_ids g"
    using assms Cons.prems(2) by simp
  have "first_owner m (set_order env (feature_ids g)) = None"
    unfolding first_owner_None order using Cons.prems(3) by auto
  then have step: "consolidate_step env g (m, cons) =
      (assign_owner (length cons) (set_order env (feature_ids g)) m, cons @ [g])"
    by (simp add: consolidate_step_def Let_def)
  have dom': "dom (assign_owner (length cons) (set_order env (feature_ids g)) m) =
      dom m \<union> feature_ids g"
    by (auto simp: assign_owner_apply order dom_def)
  have "\<forall>h \<in> set gs. dom (assign_owner (length cons) (set_order env (feature_ids g)) m) \<inter>
      feature_ids h = {}"
    unfolding dom' using Cons.prems(1,3) by fastforce
  from Cons.IH[OF _ _ this, of "cons @ [g]"] Cons.prems(1,2) step
  show ?case by simp
qed

lemma consolidate_groups_disjoint:
  assumes "\<forall>S. finite S \<longrightarrow> set (set_order env S) = S"
      and "disjoint_groups gs" and "\<forall>g \<in> set gs. finite (feature_ids g)"
  shows "consolidate_groups env gs = gs"
  using consolidate_fold_disjoint[OF assms(1,2,3), of Map.empty "[]"]
  by (simp add: consolidate_groups_def)


lemma dict_set_keys: "fst ` set (dict_set k v al) = insert k (fst ` set al)"
proof (induction al)
  case Nil
  show ?case by simp
next
  case (Cons b al)
  obtain k' v' where b: "b = (k', v')" by (cases b)
  show ?case
  proof (cases "k = k'")
    case True
    with b show ?thesis by auto
  next
    case False
    with b Cons.IH show ?thesis by (simp add: insert_commute)
  qed
qed

lemma dict_fold_keys:
  "fst ` set (fold (\<lambda>f acc. dict_set (fid f) f acc) fs acc) = fst ` set acc \<union> fid ` set fs"
  by (induction fs arbitrary: acc) (simp_all add: dict_set_keys)

lemma resolve_group_fallback:
  assumes "\<not> truthy_str (rule_field rules)" and "\<not> rule_completeness rules"
      and "\<not> truthy_str (rule_area rules)" and "rule_fid_fallback rules"
      and "finite (feature_ids g)" and "2 \<le> card (feature_ids g)"
      and "feature_ids g \<subseteq> fid ` set (getFeatures l)"
  shows "resolve_group env l rules g = Some (Min (feature_ids g))"
proof -
  let ?features = "fold (\<lambda>f acc. dict_set (fid f) f acc)
                     (filter (\<lambda>f. fid f \<in> feature_ids g) (getFeatures l)) []"
  have keys: "set (map fst ?features) = feature_ids g"
    using assms(7) by (auto simp: dict_fold_keys)
  from assms(6) have "feature_ids g \<noteq> {}" by auto
  with keys have ne: "map fst ?features \<noteq> []" by auto
  then have fne: "?features \<noteq> []" by auto
  have m: "min_list (map fst ?features) = Min (feature_ids g)"
    using min_list_Min[OF ne] keys by simp
  have f1: "(case rule_field rules of None \<Rightarrow> False
             | Some field_name \<Rightarrow> field_name \<noteq> [] \<and> field_name \<in> set (layer_fields l)) = False"
    using assms(1) by (auto simp: truthy_str_def split: option.splits)
  show ?thesis
    unfolding resolve_group_def Let_def
    using assms(2,3,4,6) fne m f1
    by (simp add: truthy_id_def)
qed

section \<open>The iteration order of the examples\<close>

lemma example_env_order: "\<forall>S. finite S \<longrightarrow> set (set_order example_env S) = S"
  by (simp add: example_env_def)

lemma order_examples:
  "set_order example_env {1, 2} = [1, 2]" "set_order example_env {3, 4} = [3, 4]"
  "set_order example_env {2, 3} = [2, 3]" "set_order example_env {1, 3} = [1, 3]"
  by (simp_all add: example_env_def)

section \<open>The groups that detect returns\<close>

lemma detect_pass_groups:
  assumes "self_layer self = Some l" and "distinct (map fid (getFeatures l))"
      and "fs = getFeatures l \<or> (\<exists>ids. fs = filter (\<lambda>f. fid f \<in> set ids) (getFeatures l))"
      and "(self_detection_type self = ''geometry'' \<and> gs = detect_geometry_duplicates env self fs) \<or>
           (self_detection_type self \<noteq> ''geometry'' \<and> detect_attribute_duplicates self fs = Inr gs)"
  shows "disjoint_groups gs"
    and "\<forall>g \<in> set gs. finite (feature_ids g) \<and> 2 \<le> card (feature_ids g) \<and>
                        feature_ids g \<subseteq> fid ` set (getFeatures l)"
proof -
  from assms(2,3) have d: "distinct (map fid fs)"
    by (auto simp: distinct_map_filter)
  from assms(3) have sub: "set fs \<subseteq> set (getFeatures l)" by auto
  have "disjoint_groups gs \<and>
      (\<forall>g \<in> set gs. finite (feature_ids g) \<and> 2 \<le> card (feature_ids g) \<and>
                     feature_ids g \<subseteq> fid ` set fs)"
    using assms(4)
  proof
    assume g: "self_detection_type self = ''geometry'' \<and> gs = detect_geometry_duplicates env self fs"
    show ?thesis
    proof (cases "self_tolerance self = 0")
      case True
      with g have "gs = detect_by_hash fs" by (simp add: detect_geometry_duplicates_def)
      with detect_by_hash_groups[OF d] show ?thesis by blast
    next
      case False
      let ?chk = "\<lparr>gc_tolerance = self_tolerance self,
                    gc_compare_method = self_compare_method self,
                    gc_decompose_multipart = self_decompose_multipart self\<rparr>"
      from False g have gs: "gs = detect_by_tolerance env ?chk (self_tolerance self) fs
          (build_feature_cache fs) fs"
        by (simp add: detect_geometry_duplicates_def)
      have t1: "disjoint_groups (detect_by_tolerance env ?chk (self_tolerance self) fs
          (build_feature_cache fs) fs)"
        by (rule detect_by_tolerance_invariant(1)[where Q = "\<lambda>i. i \<in> fid ` set fs"])
           (use feature_cache_member in blast)+
      have t2: "\<forall>g \<in> set (detect_by_tolerance env ?chk (self_tolerance self) fs
          (build_feature_cache fs) fs).
          finite (feature_ids g) \<and> 2 \<le> card (feature_ids g) \<and>
          (\<forall>i \<in> feature_ids g. i \<in> fid ` set fs)"
        by (rule detect_by_tolerance_invariant(2)[where Q = "\<lambda>i. i \<in> fid ` set fs"])
           (use feature_cache_member in blast)+
      from t1 t2
      show ?thesis unfolding gs by blast
    qed
  next
    assume "self_detection_type self \<noteq> ''geometry'' \<and> detect_attribute_duplicates self fs = Inr gs"
    with detect_attribute_groups[OF d, of self gs] show ?thesis by blast
  qed
  with sub show "disjoint_groups gs"
    and "\<forall>g \<in> set gs. finite (feature_ids g) \<and> 2 \<le> card (feature_ids g) \<and>
                        feature_ids g \<subseteq> fid ` set (getFeatures l)"
    by blast+
qed

text \<open>
  Claim C9. On a layer whose features have distinct ids, every group that \<open>detect\<close>
  returns is a finite set of at least two feature ids; a merge of the consolidation is a
  union, which has at least the members of the group merged into.
\<close>

theorem groups_have_two_members:
  assumes "self_layer self = Some l" and "distinct (map fid (getFeatures l))"
      and "detect env self = Inr result"
  shows "(\<forall>g \<in> set result. finite (feature_ids g) \<and> 2 \<le> card (feature_ids g)) \<and>
         (\<forall>a b. finite (feature_ids a) \<and> finite (feature_ids b) \<longrightarrow>
                 card (feature_ids a) \<le> card (feature_ids (merge_with a b)))"
proof
  from assms(3) obtain l' fs gs where l': "self_layer self = Some l'"
    and fs: "fs = getFeatures l' \<or> (\<exists>ids. fs = filter (\<lambda>f. fid f \<in> set ids) (getFeatures l'))"
    and gs: "(self_detection_type self = ''geometry'' \<and> gs = detect_geometry_duplicates env self fs) \<or>
         (self_detection_type self \<noteq> ''geometry'' \<and> detect_attribute_duplicates self fs = Inr gs)"
    and res: "result = consolidate_groups env
           (case self_priority_rules self of None \<Rightarrow> gs | Some rules \<Rightarrow> resolve env l' rules gs)"
    by (rule detect_Inr)
  from l' assms(1) have ll: "l' = l" by simp
  note p = detect_pass_groups(2)[OF assms(1,2) fs[unfolded ll] gs]
  let ?P = "\<lambda>g. finite (feature_ids g) \<and> 2 \<le> card (feature_ids g)"
  have "\<forall>g \<in> set (case self_priority_rules self of None \<Rightarrow> gs
                      | Some rules \<Rightarrow> resolve env l' rules gs). ?P g"
    using p by (auto simp: resolve_def split: option.splits)
  then show "\<forall>g \<in> set result. ?P g"
    unfolding res by (rule consolidate_groups_all) (rule merge_with_card)
next
  show "\<forall>a b. finite (feature_ids a) \<and> finite (feature_ids b) \<longrightarrow>
                 card (feature_ids a) \<le> card (feature_ids (merge_with a b))"
    by (auto simp: merge_with_def intro: card_mono)
qed

lemma detect_two_equal_one_null:
  "detect example_env (default_detector (Some (point_layer two_equal_one_null))) =
     Inr [hash_group [1, 2]]"
proof -
  have "consolidate_groups example_env [hash_group [1, 2]] = [hash_group [1, 2]]"
    by (rule consolidate_groups_disjoint[OF example_env_order]) (simp_all add: hash_group_def)
  then show ?thesis
    by (simp add: detect_def default_detector_def point_layer_def detect_geometry_duplicates_def
          hash_two_equal_one_null)
qed

theorem groups_have_two_members_witness:
  "distinct (map fid (getFeatures (point_layer two_equal_one_null))) \<and>
   detect example_env (default_detector (Some (point_layer two_equal_one_null))) =
     Inr [hash_group [1, 2]] \<and>
   finite (feature_ids (hash_group [1, 2])) \<and> 2 \<le> card (feature_ids (hash_group [1, 2]))"
proof -
  have d: "distinct (map fid (getFeatures (point_layer two_equal_one_null)))"
    by (simp add: point_layer_def two_equal_one_null_def point_feature_fields)
  have l: "self_layer (default_detector (Some (point_layer two_equal_one_null))) =
      Some (point_layer two_equal_one_null)"
    by (simp add: default_detector_def)
  from groups_have_two_members[OF l d detect_two_equal_one_null] d detect_two_equal_one_null
  show ?thesis by simp
qed

section \<open>The priority rules and the consolidation\<close>






section \<open>The groups of a run are disjoint\<close>







section \<open>The priority rules on the groups of a run\<close>


lemma fallback_only_rules:
  "\<not> truthy_str (rule_field fallback_only)" "\<not> rule_completeness fallback_only"
  "\<not> truthy_str (rule_area fallback_only)" "rule_fid_fallback fallback_only"
  by (simp_all add: fallback_only_def truthy_str_def)

lemma layer_ids:
  "fid ` set (getFeatures (point_layer three_points)) = {1, 2, 3}"
  "fid ` set (getFeatures (point_layer two_equal_one_null)) = {1, 2, 3}"
  by (auto simp: point_layer_def three_points_def two_equal_one_null_def point_feature_fields)

lemma resolve_examples:
  "resolve_group example_env (point_layer three_points) fallback_only (hash_group [2, 3]) = Some 2"
  "resolve_group example_env (point_layer three_points) fallback_only (hash_group [1, 3]) = Some 1"
  "resolve_group example_env (point_layer two_equal_one_null) fallback_only (hash_group [1, 2]) =
     Some 1"
  by (subst resolve_group_fallback[OF fallback_only_rules];
      simp add: hash_group_def layer_ids)+



section \<open>The consolidation of groups that overlap\<close>

text \<open>
  The lists of this section are not the groups of a detection pass on a layer whose
  features have distinct ids: those are disjoint, and \<open>consolidate_groups\<close> returns them
  as they are. On groups that overlap, \<open>consolidate_groups\<close> merges a group into the
  group that owns the first of its ids with an owner, and into no other: a group that
  overlaps two accepted groups leaves the id it shares with the second in two groups.
\<close>

lemma hash_group_fields:
  "feature_ids (hash_group fids) = set fids" "suggested_keep (hash_group fids) = None"
  by (simp_all add: hash_group_def)

lemma consolidate_groups_bridging:
  "map feature_ids
     (consolidate_groups example_env [hash_group [1, 2], hash_group [3, 4], hash_group [2, 3]]) =
   [{1, 2, 3}, {3, 4}] \<and>
   \<not> disjoint_groups
     (consolidate_groups example_env [hash_group [1, 2], hash_group [3, 4], hash_group [2, 3]])"
  by (simp add: consolidate_groups_def consolidate_step_def hash_group_def order_examples
        assign_owner_def merge_with_def insert_commute)


text \<open>The same holds in whatever order the ids of a set are iterated.\<close>

lemma consolidate_groups_bridging_any_order:
  assumes "\<forall>S. finite S \<longrightarrow> set (set_order env S) = S"
  shows "\<not> disjoint_groups
     (consolidate_groups env [hash_group [1, 2], hash_group [3, 4], hash_group [2, 3]])"
proof -
  have o12: "set (set_order env {1, 2}) = {1, 2}" and o34: "set (set_order env {3, 4}) = {3, 4}"
    and o23: "set (set_order env {2, 3}) = {2, 3}"
    using assms by simp_all
  define m1 where "m1 = assign_owner 0 (set_order env {1, 2}) Map.empty"
  define m2 where "m2 = assign_owner 1 (set_order env {3, 4}) m1"
  have m2: "m2 i = (if i \<in> {3, 4} then Some 1 else if i \<in> {1, 2} then Some 0 else None)" for i
    unfolding m2_def m1_def assign_owner_apply o12 o34 by simp
  have s1: "consolidate_step env (hash_group [1, 2]) (Map.empty, []) = (m1, [hash_group [1, 2]])"
    by (simp add: consolidate_step_def hash_group_def first_owner_None[THEN iffD2] m1_def)
  have "first_owner m1 (set_order env {3, 4}) = None"
    unfolding first_owner_None o34 m1_def assign_owner_apply o12 by simp
  then have s2: "consolidate_step env (hash_group [3, 4]) (m1, [hash_group [1, 2]]) =
      (m2, [hash_group [1, 2], hash_group [3, 4]])"
    by (simp add: consolidate_step_def hash_group_def m2_def)
  obtain x rest where xs: "set_order env {2, 3} = x # rest" and x: "x = 2 \<or> x = 3"
    using o23 by (cases "set_order env {2, 3}") auto
  have own: "first_owner m2 (set_order env {2, 3}) = Some (if x = 2 then 0 else 1)"
    using x by (auto simp: xs m2)
  have s3: "snd (consolidate_step env (hash_group [2, 3])
                   (m2, [hash_group [1, 2], hash_group [3, 4]])) =
      (if x = 2 then [merge_with (hash_group [1, 2]) (hash_group [2, 3]), hash_group [3, 4]]
       else [hash_group [1, 2], merge_with (hash_group [3, 4]) (hash_group [2, 3])])"
    using own by (simp add: consolidate_step_def hash_group_def)
  have "consolidate_groups env [hash_group [1, 2], hash_group [3, 4], hash_group [2, 3]] =
      (if x = 2 then [merge_with (hash_group [1, 2]) (hash_group [2, 3]), hash_group [3, 4]]
       else [hash_group [1, 2], merge_with (hash_group [3, 4]) (hash_group [2, 3])])"
    using s3 by (simp add: consolidate_groups_def s1 s2)
  then show ?thesis
    by (simp add: merge_with_def hash_group_def)
qed

text \<open>
  A merge keeps the suggestion of the group merged into: of the groups \<open>{2, 3}\<close> and
  \<open>{1, 3}\<close>, resolved with the id fallback and then consolidated, one group \<open>{1, 2, 3}\<close> is
  left, with the suggestion 2 of the first group.
\<close>

lemma merge_keeps_first_suggestion:
  "map (\<lambda>g. (feature_ids g, suggested_keep g))
     (consolidate_groups example_env
        (resolve example_env (point_layer three_points) fallback_only
           [hash_group [2, 3], hash_group [1, 3]])) =
   [({1, 2, 3}, Some 2)] \<and>
   Min {1, 2, 3 :: int} = 1"
  by (simp add: resolve_def resolve_examples consolidate_groups_def consolidate_step_def
        order_examples hash_group_fields assign_owner_def merge_with_def insert_commute)

end
